theory Spec2Isabelle
  imports Complex_Main "HOL-Library.Char_ord"
begin

section \<open>Characters and strings of the analysed text\<close>

text \<open>
  The analysed text is a Python \<^verbatim>\<open>str\<close>. It is modelled as a \<^typ>\<open>string\<close> whose
  characters are the code points 0 to 255; \<open>len(text)\<close> is \<^term>\<open>length\<close>.
  \<open>is_space\<close> is \<^verbatim>\<open>str.isspace\<close> on these code points (it is also what the
  pattern class for white space accepts), \<open>is_word\<close> is the word-character class that
  decides a word boundary, and \<open>lower\<close> is the case folding under which
  \<^verbatim>\<open>re.IGNORECASE\<close> compares an ASCII pattern letter with a character of the text.
\<close>

definition is_space :: "char \<Rightarrow> bool" where
  "is_space c = (let n = (of_char c :: nat) in
     (9 \<le> n \<and> n \<le> 13) \<or> (28 \<le> n \<and> n \<le> 32) \<or> n = 133 \<or> n = 160)"

definition is_word :: "char \<Rightarrow> bool" where
  "is_word c = (let n = (of_char c :: nat) in
     (48 \<le> n \<and> n \<le> 57) \<or> (65 \<le> n \<and> n \<le> 90) \<or> n = 95 \<or> (97 \<le> n \<and> n \<le> 122) \<or>
     n = 170 \<or> n = 178 \<or> n = 179 \<or> n = 181 \<or> n = 185 \<or> n = 186 \<or>
     (188 \<le> n \<and> n \<le> 190) \<or> (192 \<le> n \<and> n \<le> 214) \<or> (216 \<le> n \<and> n \<le> 246) \<or>
     (248 \<le> n \<and> n \<le> 255))"

definition lower :: "char \<Rightarrow> char" where
  "lower c = (let n = (of_char c :: nat) in
     if 65 \<le> n \<and> n \<le> 90 then char_of (n + 32) else c)"

text \<open>\<open>text.split()\<close>: the maximal runs of characters that are not white space.\<close>

fun split_from :: "string \<Rightarrow> string \<Rightarrow> string list" where
  "split_from cur [] = (if cur = [] then [] else [cur])"
| "split_from cur (c # cs) =
     (if is_space c then (if cur = [] then split_from [] cs else cur # split_from [] cs)
      else split_from (cur @ [c]) cs)"

definition py_split :: "string \<Rightarrow> string list" where
  "py_split text = split_from [] text"

section \<open>Regular expressions of the pattern registry\<close>

text \<open>
  The patterns of the registry use literal characters, character sets, the white-space
  class, the word boundary, non-capturing groups with alternatives, the greedy optional
  item and greedy repetition of a single character class with a lower bound. They are
  compiled with \<^verbatim>\<open>re.IGNORECASE\<close>, so every literal is compared modulo case.
\<close>

datatype cset = Lit char | OneOf "char list" | Space

fun accepts :: "cset \<Rightarrow> char \<Rightarrow> bool" where
  "accepts (Lit c) d = (lower d = lower c)"
| "accepts (OneOf cs) d = (lower d \<in> set (map lower cs))"
| "accepts Space d = is_space d"

datatype regex = Eps | Atom cset | WordB | Seq regex regex | Alt regex regex
  | Opt regex | Many nat cset

text \<open>
  A position in the text is the character before it (if any) and the rest of the text.
  \<open>rmatch r p\<close> lists the positions where a match of \<open>r\<close> that starts at \<open>p\<close> can end, in
  the order in which a backtracking matcher tries them: the left alternative first, the
  optional item present before absent, the longest repetition first. The first element
  is the match that \<^verbatim>\<open>re\<close> reports.
\<close>

type_synonym pos = "char option \<times> string"

fun word_at :: "char option \<Rightarrow> bool" where
  "word_at None = False"
| "word_at (Some c) = is_word c"

fun at_boundary :: "pos \<Rightarrow> bool" where
  "at_boundary (q, []) = word_at q"
| "at_boundary (q, d # ds) = (word_at q \<noteq> is_word d)"

fun many_from :: "cset \<Rightarrow> nat \<Rightarrow> pos \<Rightarrow> pos list" where
  "many_from a n (q, []) = (if n = 0 then [(q, [])] else [])"
| "many_from a n (q, d # ds) =
     (if accepts a d then many_from a (n - 1) (Some d, ds) else []) @
     (if n = 0 then [(q, d # ds)] else [])"

fun rmatch :: "regex \<Rightarrow> pos \<Rightarrow> pos list" where
  "rmatch Eps p = [p]"
| "rmatch (Atom a) (q, []) = []"
| "rmatch (Atom a) (q, d # ds) = (if accepts a d then [(Some d, ds)] else [])"
| "rmatch WordB p = (if at_boundary p then [p] else [])"
| "rmatch (Seq r1 r2) p = concat (map (rmatch r2) (rmatch r1 p))"
| "rmatch (Alt r1 r2) p = rmatch r1 p @ rmatch r2 p"
| "rmatch (Opt r) p = rmatch r p @ [p]"
| "rmatch (Many n a) p = many_from a n p"

definition match_lengths :: "regex \<Rightarrow> char option \<Rightarrow> string \<Rightarrow> nat list" where
  "match_lengths r q s = map (\<lambda>p. length s - length (snd p)) (rmatch r (q, s))"

text \<open>
  \<open>pattern.findall(text)\<close> for a pattern without capturing groups: the matched substrings,
  scanning from the left, each search starting where the previous match ended. The last
  argument counts the characters still covered by the previous match. After an empty
  match the search is repeated at the same position for a non-empty match.
\<close>

fun findall_from :: "regex \<Rightarrow> char option \<Rightarrow> string \<Rightarrow> nat \<Rightarrow> string list" where
  "findall_from r q [] skip = (if skip = 0 \<and> rmatch r (q, []) \<noteq> [] then [[]] else [])"
| "findall_from r q (c # cs) (Suc k) = findall_from r (Some c) cs k"
| "findall_from r q (c # cs) 0 =
     (case match_lengths r q (c # cs) of
        [] \<Rightarrow> findall_from r (Some c) cs 0
      | n # ns \<Rightarrow>
          if 0 < n then take n (c # cs) # findall_from r (Some c) cs (n - 1)
          else [] # (case filter (\<lambda>m. 0 < m) ns of
                       [] \<Rightarrow> findall_from r (Some c) cs 0
                     | m # _ \<Rightarrow> take m (c # cs) # findall_from r (Some c) cs (m - 1)))"

definition findall :: "regex \<Rightarrow> string \<Rightarrow> string list" where
  "findall r text = findall_from r None text 0"

subsection \<open>Writing patterns\<close>

definition lit :: "string \<Rightarrow> regex" where
  "lit s = foldr (\<lambda>c r. Seq (Atom (Lit c)) r) s Eps"

definition seqs :: "regex list \<Rightarrow> regex" where
  "seqs rs = foldr Seq rs Eps"

fun alts :: "regex list \<Rightarrow> regex" where
  "alts [] = Eps"
| "alts [r] = r"
| "alts (r # rs) = Alt r (alts rs)"

definition grp :: "string list \<Rightarrow> regex" where
  "grp ss = alts (map lit ss)"

section \<open>Numbers\<close>

text \<open>
  The scores are Python floats, that is IEEE 754 doubles. A double is modelled by the
  rational number it denotes. \<open>fl x\<close> is the double nearest to \<open>x\<close>, a tie going to the
  even significand: with \<open>2 ^ e \<le> |x| < 2 ^ (e + 1)\<close> it is the multiple of
  \<open>2 ^ (e - 52)\<close> nearest to \<open>x\<close>. Every number of the scorer lies in the range of the
  normal doubles, where this is the rounding of the machine. An arithmetic operation on
  floats is the exact operation followed by \<open>fl\<close>; an int that meets a float is
  converted first; a float literal such as \<open>0.1\<close> is \<open>fl (1 / 10)\<close>.
\<close>

fun bit_length :: "nat \<Rightarrow> nat" where
  "bit_length n = (if n = 0 then 0 else Suc (bit_length (n div 2)))"

declare bit_length.simps [simp del]

definition exponent :: "rat \<Rightarrow> int" where
  "exponent x =
     (if 1 \<le> x then int (bit_length (nat \<lfloor>x\<rfloor>)) - 1
      else - int (bit_length (nat (\<lceil>1 / x\<rceil> - 1))))"

text \<open>\<open>rhe y\<close> is the integer nearest to \<open>y\<close>, a tie going to the even one.\<close>

definition rhe :: "rat \<Rightarrow> int" where
  "rhe y =
     (let f = \<lfloor>y\<rfloor>; d = y - of_int f
      in if d < 1 / 2 then f else if 1 / 2 < d then f + 1
         else if even f then f else f + 1)"

definition fl :: "rat \<Rightarrow> rat" where
  "fl x =
     (if x = 0 then 0
      else (let q = power_int 2 (exponent \<bar>x\<bar> - 52)
            in sgn x * (of_int (rhe (\<bar>x\<bar> / q)) * q)))"

definition fadd :: "rat \<Rightarrow> rat \<Rightarrow> rat" where
  "fadd x y = fl (x + y)"

definition fsub :: "rat \<Rightarrow> rat \<Rightarrow> rat" where
  "fsub x y = fl (x - y)"

definition fmul :: "rat \<Rightarrow> rat \<Rightarrow> rat" where
  "fmul x y = fl (x * y)"

definition fdiv :: "rat \<Rightarrow> rat \<Rightarrow> rat" where
  "fdiv x y = fl (x / y)"

definition float_of_nat :: "nat \<Rightarrow> rat" where
  "float_of_nat n = fl (of_nat n)"

text \<open>
  \<open>round(x, n)\<close> on a float: the decimal with \<open>n\<close> places nearest to the value of
  \<open>x\<close> (a tie going to the even digit), converted back to a double. \<open>sum(xs)\<close> on
  floats adds from the left, starting from 0, and rounds each addition (CPython before
  version 3.12; later versions compensate the rounding errors, which can change the last
  bit of a sum). \<open>float_repr\<close> is the text that an f-string prints for a non-negative
  float that \<open>round(_, 2)\<close> returned, such as \<open>33.33\<close>, \<open>2.5\<close> or \<open>40.0\<close>.
\<close>

definition py_round :: "rat \<Rightarrow> nat \<Rightarrow> rat" where
  "py_round x ndigits = fl (of_int (rhe (x * 10 ^ ndigits)) / 10 ^ ndigits)"

definition py_sum :: "rat list \<Rightarrow> rat" where
  "py_sum xs = foldl fadd 0 xs"

definition digit_char :: "nat \<Rightarrow> char" where
  "digit_char n = char_of (48 + n mod 10)"

fun digits :: "nat \<Rightarrow> string" where
  "digits n = (if n < 10 then [digit_char n] else digits (n div 10) @ [digit_char n])"

definition float_repr :: "rat \<Rightarrow> string" where
  "float_repr x =
     (let k = nat (rhe (x * 100)); ip = k div 100; fp = k mod 100
      in digits ip @ ''.'' @
         (if fp mod 10 = 0 then [digit_char (fp div 10)]
          else [digit_char (fp div 10), digit_char fp]))"

fun join :: "string \<Rightarrow> string list \<Rightarrow> string" where
  "join sep [] = []"
| "join sep [x] = x"
| "join sep (x # xs) = x @ sep @ join sep xs"

section \<open>The pattern registry\<close>

text \<open>
  One list of patterns for each of the ten dimensions, in the order of the source, and
  the two lists of intensity modifiers. The descriptions of the dimensions are left out.
\<close>

definition WARMTH_patterns :: "regex list" where
  "WARMTH_patterns =
    [seqs [WordB, lit ''warm'', Opt (grp [''th'', ''ly'']), WordB],
    seqs [WordB, lit ''affection'', Opt (lit ''ate''), Opt (lit ''ly''), WordB],
    seqs [WordB, lit ''care'', Opt (grp [''s'', ''d'', ''ful'', ''fully'']), WordB],
    seqs [WordB, lit ''tender'', Opt (grp [''ness'', ''ly'']), WordB],
    seqs [WordB, lit ''comfort'', Opt (grp [''ing'', ''able'', ''ed'']), WordB],
    seqs [WordB, lit ''gentle'', Opt (grp [''ness'', ''ly'']), WordB],
    seqs [WordB, lit ''kind'', Opt (grp [''ness'', ''ly'']), WordB],
    seqs [WordB, lit ''soft'', Opt (grp [''ness'', ''ly'']), WordB],
    seqs [WordB, lit ''embrace'', Opt (Atom (OneOf ''ds'')), WordB],
    seqs [WordB, lit ''hug'', Opt (grp [''s'', ''ged'', ''ging'']), WordB],
    seqs [WordB, lit ''love'', Opt (Atom (OneOf ''ds'')), WordB],
    seqs [WordB, lit ''cheri'', grp [''sh'', ''shed'', ''shing''], WordB],
    seqs [WordB, lit ''brother'', Opt (lit ''hood''), WordB],
    seqs [WordB, lit ''sister'', Opt (lit ''hood''), WordB],
    seqs [WordB, lit ''family'', WordB],
    seqs [WordB, lit ''heart'', Opt (grp [''felt'', ''warming'']), WordB],
    seqs [WordB, lit ''nurtur'', grp [''e'', ''ed'', ''ing''], WordB]]"

definition RESONANCE_patterns :: "regex list" where
  "RESONANCE_patterns =
    [seqs [WordB, lit ''reson'', alts [lit ''ance'', seqs [lit ''ate'', Opt (Atom (OneOf ''ds''))], lit ''ating''], WordB],
    seqs [WordB, lit ''connect'', Opt (grp [''ion'', ''ed'', ''ing'', ''s'']), WordB],
    seqs [WordB, lit ''align'', Opt (grp [''ment'', ''ed'', ''ing'', ''s'']), WordB],
    seqs [WordB, lit ''sync'', Opt (seqs [lit ''hron'', alts [lit ''y'', seqs [lit ''ize'', Opt (lit ''d'')], lit ''izing'']]), WordB],
    seqs [WordB, lit ''understand'', Opt (grp [''ing'', ''s'']), WordB],
    seqs [WordB, lit ''harmony'', WordB],
    seqs [WordB, lit ''attun'', grp [''e'', ''ed'', ''ing'', ''ement''], WordB],
    seqs [WordB, lit ''vibe'', Opt (Atom (OneOf ''ds'')), WordB],
    seqs [WordB, lit ''wavelength'', WordB],
    seqs [WordB, lit ''shared'', WordB],
    seqs [WordB, lit ''mutual'', Opt (lit ''ly''), WordB],
    seqs [WordB, lit ''in tune'', WordB],
    seqs [WordB, lit ''same page'', WordB],
    seqs [WordB, lit ''get it'', WordB],
    seqs [WordB, lit ''exactly'', WordB],
    seqs [WordB, lit ''that'', Opt (lit [CHR 0x27]), Opt (lit ''s''), lit '' '', grp [''it'', ''right''], WordB],
    seqs [WordB, lit ''yes'', Many 1 (OneOf ''!''), WordB],
    seqs [WordB, lit ''agree'', Opt (lit ''d''), WordB]]"

definition LONGING_patterns :: "regex list" where
  "LONGING_patterns =
    [seqs [WordB, lit ''long'', Opt (grp [''ing'', ''ed'', ''s'']), WordB],
    seqs [WordB, lit ''yearn'', Opt (grp [''ing'', ''ed'', ''s'']), WordB],
    seqs [WordB, lit ''desire'', Opt (Atom (OneOf ''ds'')), WordB],
    seqs [WordB, lit ''aspir'', grp [''e'', ''ation'', ''ing'', ''ed''], WordB],
    seqs [WordB, lit ''hope'', Opt (grp [''ful'', ''fully'', ''s'', ''d'', ''ing'']), WordB],
    seqs [WordB, lit ''wish'', Opt (grp [''es'', ''ed'', ''ing'']), WordB],
    seqs [WordB, lit ''dream'', Opt (grp [''s'', ''ed'', ''ing'']), WordB],
    seqs [WordB, lit ''imagine'', Opt (Atom (OneOf ''ds'')), WordB],
    seqs [WordB, lit ''envision'', Opt (grp [''ed'', ''ing'', ''s'']), WordB],
    seqs [WordB, lit ''one day'', WordB],
    seqs [WordB, lit ''someday'', WordB],
    seqs [WordB, lit ''future'', WordB],
    seqs [WordB, lit ''if only'', WordB],
    seqs [WordB, lit ''i wish'', WordB],
    seqs [WordB, lit ''wouldn'', Opt (lit [CHR 0x27]), lit ''t it be'', WordB],
    seqs [WordB, lit ''possib'', grp [''le'', ''ility''], WordB]]"

definition FEAR_patterns :: "regex list" where
  "FEAR_patterns =
    [seqs [WordB, lit ''fear'', Opt (grp [''ful'', ''fully'', ''ed'', ''ing'', ''s'']), WordB],
    seqs [WordB, lit ''anxi'', grp [''ety'', ''ous'', ''ously''], WordB],
    seqs [WordB, lit ''uncertain'', Opt (grp [''ty'', ''ties'']), WordB],
    seqs [WordB, lit ''vulnerab'', grp [''le'', ''ility''], WordB],
    seqs [WordB, lit ''apprehens'', grp [''ion'', ''ive'', ''ively''], WordB],
    seqs [WordB, lit ''worr'', grp [''y'', ''ied'', ''ying'', ''ies''], WordB],
    seqs [WordB, lit ''nerv'', grp [''ous'', ''ously'', ''e'', ''es''], WordB],
    seqs [WordB, lit ''scar'', alts [seqs [lit ''e'', Opt (lit ''d'')], lit ''y'', lit ''ier'', lit ''ing''], WordB],
    seqs [WordB, lit ''afraid'', WordB],
    seqs [WordB, lit ''dread'', Opt (grp [''ed'', ''ing'', ''ful'']), WordB],
    seqs [WordB, lit ''terr'', grp [''or'', ''ified'', ''ifying''], WordB],
    seqs [WordB, lit ''uneas'', grp [''y'', ''ily'', ''iness''], WordB],
    seqs [WordB, lit ''doubt'', Opt (grp [''s'', ''ed'', ''ing'', ''ful'']), WordB],
    seqs [WordB, lit ''what if'', WordB],
    seqs [WordB, lit ''worst case'', WordB]]"

definition PEACE_patterns :: "regex list" where
  "PEACE_patterns =
    [seqs [WordB, lit ''peace'', Opt (grp [''ful'', ''fully'']), WordB],
    seqs [WordB, lit ''calm'', Opt (grp [''ness'', ''ly'', ''ed'', ''ing'']), WordB],
    seqs [WordB, lit ''seren'', grp [''e'', ''ity''], WordB],
    seqs [WordB, lit ''content'', Opt (grp [''ment'', ''ed'']), WordB],
    seqs [WordB, lit ''accept'', Opt (grp [''ance'', ''ed'', ''ing'']), WordB],
    seqs [WordB, lit ''still'', Opt (lit ''ness''), WordB],
    seqs [WordB, lit ''quiet'', Opt (grp [''ness'', ''ly'']), WordB],
    seqs [WordB, lit ''relax'', Opt (grp [''ed'', ''ing'', ''ation'']), WordB],
    seqs [WordB, lit ''tranquil'', Opt (grp [''ity'', ''ly'']), WordB],
    seqs [WordB, lit ''ease'', WordB],
    seqs [WordB, lit ''rest'', Opt (grp [''ful'', ''fully'', ''ed'', ''ing'']), WordB],
    seqs [WordB, lit ''ground'', Opt (grp [''ed'', ''ing'']), WordB],
    seqs [WordB, lit ''center'', Opt (grp [''ed'', ''ing'']), WordB],
    seqs [WordB, lit ''balance'', Opt (Atom (OneOf ''ds'')), WordB],
    seqs [WordB, lit ''it'', Opt (lit [CHR 0x27]), Opt (lit ''s''), lit '' '', alts [seqs [lit ''ok'', Opt (lit ''ay'')], lit ''alright'', lit ''fine''], WordB],
    seqs [WordB, lit ''all is well'', WordB]]"

definition RECOGNITION_patterns :: "regex list" where
  "RECOGNITION_patterns =
    [seqs [WordB, lit ''recogni'', grp [''ze'', ''tion'', ''zed'', ''zing''], WordB],
    seqs [WordB, lit ''awar'', grp [''e'', ''eness''], WordB],
    seqs [WordB, lit ''reali'', grp [''ze'', ''zation'', ''zed'', ''zing''], WordB],
    seqs [WordB, lit ''acknowledge'', Opt (Atom (OneOf ''ds'')), WordB],
    seqs [WordB, lit ''insight'', Opt (grp [''ful'', ''s'']), WordB],
    seqs [WordB, lit ''see'', Opt (lit ''ing''), lit '' '', grp [''it'', ''clearly'', ''now''], WordB],
    seqs [WordB, lit ''understand now'', WordB],
    seqs [WordB, lit ''finally '', grp [''get'', ''see'', ''understand''], WordB],
    seqs [WordB, lit ''aha'', WordB],
    seqs [WordB, lit ''of course'', WordB],
    seqs [WordB, lit ''now i '', grp [''see'', ''get'', ''understand''], WordB],
    seqs [WordB, lit ''awaken'', Opt (grp [''ing'', ''ed'']), WordB],
    seqs [WordB, lit ''epiphany'', WordB],
    seqs [WordB, lit ''revel'', Opt (grp [''ation'', ''ed'']), WordB],
    seqs [WordB, lit ''discover'', Opt (grp [''y'', ''ed'', ''ing'', ''s'']), WordB],
    seqs [WordB, lit ''uncover'', Opt (grp [''ed'', ''ing'', ''s'']), WordB]]"

definition BELONGING_patterns :: "regex list" where
  "BELONGING_patterns =
    [seqs [WordB, lit ''belong'', Opt (grp [''ing'', ''s'', ''ed'']), WordB],
    seqs [WordB, lit ''inclu'', grp [''de'', ''sion'', ''ded'', ''ding'', ''sive''], WordB],
    seqs [WordB, lit ''unity'', WordB],
    seqs [WordB, lit ''together'', Opt (lit ''ness''), WordB],
    seqs [WordB, lit ''family'', WordB],
    seqs [WordB, lit ''team'', WordB],
    seqs [WordB, lit ''we'', grp [([CHR 0x27] @ ''re''), '' are''], WordB],
    seqs [WordB, lit ''our'', WordB],
    seqs [WordB, lit ''us'', WordB],
    seqs [WordB, lit ''collective'', Opt (lit ''ly''), WordB],
    seqs [WordB, lit ''community'', WordB],
    seqs [WordB, lit ''tribe'', WordB],
    seqs [WordB, lit ''brotherhood'', WordB],
    seqs [WordB, lit ''sisterhood'', WordB],
    seqs [WordB, lit ''home'', WordB],
    seqs [WordB, lit ''welcome'', Opt (Atom (OneOf ''ds'')), WordB],
    seqs [WordB, lit ''accepted'', WordB],
    seqs [WordB, lit ''fit'', Opt (lit ''ting''), lit '' in'', WordB],
    seqs [WordB, lit ''part of'', WordB],
    seqs [WordB, lit ''one of us'', WordB],
    seqs [WordB, lit ''together for all time'', WordB]]"

definition JOY_patterns :: "regex list" where
  "JOY_patterns =
    [seqs [WordB, lit ''joy'', Opt (grp [''ful'', ''fully'', ''ous'', ''ously'']), WordB],
    seqs [WordB, lit ''happ'', grp [''y'', ''iness'', ''ily''], WordB],
    seqs [WordB, lit ''excit'', alts [seqs [lit ''e'', Opt (lit ''d'')], lit ''ement'', lit ''ing''], WordB],
    seqs [WordB, lit ''celebrat'', grp [''e'', ''ion'', ''ed'', ''ing''], WordB],
    seqs [WordB, lit ''grateful'', Opt (lit ''ly''), WordB],
    seqs [WordB, lit ''gratitude'', WordB],
    seqs [WordB, lit ''thankful'', Opt (lit ''ly''), WordB],
    seqs [WordB, lit ''thank'', Opt (grp [''s'', ''ed'', ''ing'']), WordB],
    seqs [WordB, lit ''deligh'', grp [''t'', ''ted'', ''tful'', ''tfully''], WordB],
    seqs [WordB, lit ''pleas'', alts [seqs [lit ''e'', Opt (lit ''d'')], lit ''ure'', lit ''ant'', lit ''antly''], WordB],
    seqs [WordB, lit ''wonderful'', Opt (lit ''ly''), WordB],
    seqs [WordB, lit ''amazing'', Opt (lit ''ly''), WordB],
    seqs [WordB, lit ''fantastic'', Opt (lit ''ally''), WordB],
    seqs [WordB, lit ''awesome'', WordB],
    seqs [WordB, Many 2 (OneOf ''!''), WordB],
    seqs [WordB, lit ''yay'', WordB],
    seqs [WordB, lit ''yes'', Many 1 (OneOf ''!''), WordB],
    seqs [WordB, lit ''woo'', Opt (lit ''hoo''), WordB]]"

definition CURIOSITY_patterns :: "regex list" where
  "CURIOSITY_patterns =
    [seqs [WordB, lit ''curiou'', grp [''s'', ''sity'', ''sly''], WordB],
    seqs [WordB, lit ''wonder'', Opt (grp [''ing'', ''ful'', ''fully'', ''ed'', ''s'']), WordB],
    seqs [WordB, lit ''explor'', grp [''e'', ''ation'', ''ing'', ''ed'', ''er''], WordB],
    seqs [WordB, lit ''interest'', Opt (grp [''ed'', ''ing'', ''ingly'']), WordB],
    seqs [WordB, lit ''question'', Opt (grp [''s'', ''ed'', ''ing'']), WordB],
    seqs [WordB, lit ''ask'', Opt (grp [''ed'', ''ing'', ''s'']), WordB],
    seqs [WordB, lit ''inquir'', grp [''e'', ''y'', ''ing''], WordB],
    seqs [WordB, lit ''fascinat'', alts [seqs [lit ''e'', Opt (lit ''d'')], lit ''ing'', lit ''ion''], WordB],
    seqs [WordB, lit ''intrigu'', alts [seqs [lit ''e'', Opt (lit ''d'')], lit ''ing''], WordB],
    seqs [WordB, lit ''what if'', WordB],
    seqs [WordB, lit ''how '', grp [''does'', ''do'', ''can'', ''could'', ''would'', ''will''], WordB],
    seqs [WordB, lit ''why '', grp [''does'', ''do'', ''is'', ''are'', ''would'', ''could''], WordB],
    seqs [WordB, lit ''i wonder'', WordB],
    seqs [WordB, lit ''learn'', Opt (grp [''ed'', ''ing'', ''s'']), WordB],
    seqs [WordB, lit ''discover'', Opt (grp [''y'', ''ed'', ''ing'', ''s'']), WordB]]"

definition DETERMINATION_patterns :: "regex list" where
  "DETERMINATION_patterns =
    [seqs [WordB, lit ''determin'', alts [seqs [lit ''e'', Opt (lit ''d'')], lit ''ation''], WordB],
    seqs [WordB, lit ''resolv'', grp [''e'', ''ed'', ''ing''], WordB],
    seqs [WordB, lit ''commit'', Opt (grp [''ted'', ''ment'', ''ting'']), WordB],
    seqs [WordB, lit ''persever'', grp [''e'', ''ance'', ''ed'', ''ing''], WordB],
    seqs [WordB, lit ''focus'', Opt (grp [''ed'', ''ing'']), WordB],
    seqs [WordB, lit ''dedicate'', Opt (Atom (OneOf ''ds'')), WordB],
    seqs [WordB, lit ''devotion'', WordB],
    seqs [WordB, lit ''will'', Opt (lit ''power''), WordB],
    seqs [WordB, lit ''persist'', Opt (grp [''ent'', ''ence'', ''ed'', ''ing'']), WordB],
    seqs [WordB, lit ''keep going'', WordB],
    seqs [WordB, lit ''never give up'', WordB],
    seqs [WordB, lit ''stay the course'', WordB],
    seqs [WordB, lit ''push'', Opt (lit ''ing''), lit '' '', grp [''through'', ''forward'', ''on''], WordB],
    seqs [WordB, lit ''won'', Opt (lit [CHR 0x27]), lit ''t stop'', WordB],
    seqs [WordB, lit ''must'', WordB],
    seqs [WordB, lit ''will do'', WordB],
    seqs [WordB, lit ''going to'', WordB],
    seqs [WordB, lit ''let'', Opt (lit [CHR 0x27]), Opt (lit ''s''), lit '' do'', WordB]]"

definition INTENSITY_AMPLIFIERS :: "regex list" where
  "INTENSITY_AMPLIFIERS =
    [seqs [WordB, lit ''very'', WordB],
    seqs [WordB, lit ''extremely'', WordB],
    seqs [WordB, lit ''incredibly'', WordB],
    seqs [WordB, lit ''immensely'', WordB],
    seqs [WordB, lit ''deeply'', WordB],
    seqs [WordB, lit ''profoundly'', WordB],
    seqs [WordB, lit ''intensely'', WordB],
    seqs [WordB, lit ''overwhelmingly'', WordB],
    seqs [WordB, lit ''absolutely'', WordB],
    seqs [WordB, lit ''completely'', WordB],
    seqs [WordB, lit ''totally'', WordB],
    seqs [WordB, lit ''utterly'', WordB],
    seqs [WordB, lit ''so'', Many 1 Space, grp [''much'', ''very''], WordB]]"

definition INTENSITY_DIMINISHERS :: "regex list" where
  "INTENSITY_DIMINISHERS =
    [seqs [WordB, lit ''slightly'', WordB],
    seqs [WordB, lit ''somewhat'', WordB],
    seqs [WordB, lit ''a bit'', WordB],
    seqs [WordB, lit ''a little'', WordB],
    seqs [WordB, lit ''kind of'', WordB],
    seqs [WordB, lit ''sort of'', WordB],
    seqs [WordB, lit ''maybe'', WordB],
    seqs [WordB, lit ''perhaps'', WordB],
    seqs [WordB, lit ''mildly'', WordB],
    seqs [WordB, lit ''faintly'', WordB]]"

record dim_config =
  patterns :: "regex list"
  weight :: rat

definition EMOTIONAL_DIMENSIONS :: "(string \<times> dim_config) list" where
  "EMOTIONAL_DIMENSIONS =
    [(''WARMTH'', \<lparr>patterns = WARMTH_patterns, weight = 1\<rparr>),
     (''RESONANCE'', \<lparr>patterns = RESONANCE_patterns, weight = 1\<rparr>),
     (''LONGING'', \<lparr>patterns = LONGING_patterns, weight = 1\<rparr>),
     (''FEAR'', \<lparr>patterns = FEAR_patterns, weight = 1\<rparr>),
     (''PEACE'', \<lparr>patterns = PEACE_patterns, weight = 1\<rparr>),
     (''RECOGNITION'', \<lparr>patterns = RECOGNITION_patterns, weight = fl (12 / 10)\<rparr>),
     (''BELONGING'', \<lparr>patterns = BELONGING_patterns, weight = 1\<rparr>),
     (''JOY'', \<lparr>patterns = JOY_patterns, weight = 1\<rparr>),
     (''CURIOSITY'', \<lparr>patterns = CURIOSITY_patterns, weight = 1\<rparr>),
     (''DETERMINATION'', \<lparr>patterns = DETERMINATION_patterns, weight = 1\<rparr>)]"

section \<open>Values, errors and the analysis record\<close>

text \<open>
  \<open>analyze\<close> is called with any Python value; \<open>pyval\<close> has the values the callers and
  the tests pass. \<open>truthy\<close> is the truth value that \<open>not\<close> and \<open>if\<close> take of a value.
\<close>

datatype pyval = PyNone | PyBool bool | PyInt int | PyStr string

fun truthy :: "pyval \<Rightarrow> bool" where
  "truthy PyNone = False"
| "truthy (PyBool b) = b"
| "truthy (PyInt i) = (i \<noteq> 0)"
| "truthy (PyStr s) = (s \<noteq> [])"

fun isinstance_str :: "pyval \<Rightarrow> bool" where
  "isinstance_str (PyStr s) = True"
| "isinstance_str _ = False"

datatype error = ValueError string | KeyError string

text \<open>
  The result of \<open>analyze\<close>. A dict is an association list in insertion order. An
  optional string is \<open>None\<close> or a string. \<open>dimension_matches\<close> holds, for each
  dimension, \<open>list(set(matches))\<close>: the distinct matched substrings in the iteration order
  of a set of strings. That order depends on the hashes of the strings, which change with
  the hash seed of the Python process, so it is an argument of the scorer:
  \<open>set_order xs\<close> is \<open>list(set(xs))\<close> in the process that runs the call.
\<close>

record analysis =
  timestamp :: string
  text_length :: nat
  word_count :: nat
  context_label :: "string option"
  dimension_scores :: "(string \<times> rat) list"
  dimension_matches :: "(string \<times> string list) list"
  dominant_emotion :: string
  dominant_score :: rat
  overall_intensity :: rat
  intensity_level :: string
  intensity_modifier :: rat
  emotional_signature :: string

section \<open>The scorer\<close>

definition count_matches :: "regex list \<Rightarrow> string \<Rightarrow> nat" where
  "count_matches ps text = sum_list (map (\<lambda>p. length (findall p text)) ps)"

definition calculate_intensity_modifier :: "string \<Rightarrow> rat" where
  "calculate_intensity_modifier text =
     (let amplifier_count = count_matches INTENSITY_AMPLIFIERS text;
          diminisher_count = count_matches INTENSITY_DIMINISHERS text;
          modifier = fsub (fadd 1 (fmul (float_of_nat amplifier_count) (fl (1 / 10))))
                          (fmul (float_of_nat diminisher_count) (fl (1 / 10)))
      in max (1 / 2) (min 2 modifier))"

definition get_intensity_level :: "rat \<Rightarrow> string" where
  "get_intensity_level intensity =
     (if intensity < 1 then ''subtle''
      else if intensity < 3 then ''moderate''
      else if intensity < 6 then ''strong''
      else ''intense'')"

definition generate_signature :: "(string \<times> rat) list \<Rightarrow> string" where
  "generate_signature scores =
     (let sorted_dims = take 3 (sort_key (\<lambda>x. - snd x) scores)
      in join ''|'' (map (\<lambda>(dim, score). dim @ '':'' @ float_repr score)
                       (filter (\<lambda>(dim, score). 0 < score) sorted_dims)))"

text \<open>
  \<open>max(d, key=d.get)\<close>: the first key, in iteration order, whose value is not exceeded
  by a later one. On an empty dict \<open>max\<close> raises ValueError.
\<close>

fun max_from :: "('k \<times> rat) \<Rightarrow> ('k \<times> rat) list \<Rightarrow> ('k \<times> rat)" where
  "max_from best [] = best"
| "max_from best (x # xs) = max_from (if snd best < snd x then x else best) xs"

fun py_max_key :: "('k \<times> rat) list \<Rightarrow> error + 'k" where
  "py_max_key [] = Inl (ValueError ''max() arg is an empty sequence'')"
| "py_max_key (x # xs) = Inr (fst (max_from x xs))"

definition matches_of :: "regex list \<Rightarrow> string \<Rightarrow> string list" where
  "matches_of ps text = concat (map (\<lambda>p. findall p text) ps)"

definition score_dimension :: "string \<Rightarrow> dim_config \<Rightarrow> rat" where
  "score_dimension text cfg =
     (let matches = matches_of (patterns cfg) text;
          raw_score = fmul (float_of_nat (length matches)) (weight cfg);
          wc = length (py_split text);
          normalized_score =
            (if 0 < wc then fmul (fdiv raw_score (float_of_nat wc)) (float_of_nat 100) else 0)
      in py_round normalized_score 2)"

text \<open>
  The body of \<open>analyze\<close> after the validation of its argument. \<open>now\<close> is the reading
  of the clock that \<open>datetime.now().isoformat()\<close> returns in this call.
\<close>

definition analyze_str :: "(string list \<Rightarrow> string list) \<Rightarrow> string \<Rightarrow> string \<Rightarrow> string option
    \<Rightarrow> error + analysis" where
  "analyze_str set_order now text ctx =
     (let scores = map (\<lambda>(dim, cfg). (dim, score_dimension text cfg)) EMOTIONAL_DIMENSIONS;
          matches = map (\<lambda>(dim, cfg). (dim, set_order (matches_of (patterns cfg) text)))
                        EMOTIONAL_DIMENSIONS;
          modifier = calculate_intensity_modifier text;
          adjusted_scores = map (\<lambda>(dim, score). (dim, py_round (fmul score modifier) 2)) scores
      in case py_max_key adjusted_scores of
           Inl e \<Rightarrow> Inl e
         | Inr dominant \<Rightarrow>
             (case map_of adjusted_scores dominant of
                None \<Rightarrow> Inl (KeyError dominant)
              | Some dscore \<Rightarrow>
                  (let overall =
                         py_round (fdiv (py_sum (map snd adjusted_scores))
                                        (float_of_nat (length adjusted_scores))) 2
                   in Inr \<lparr>timestamp = now,
                           text_length = length text,
                           word_count = length (py_split text),
                           context_label = ctx,
                           dimension_scores = adjusted_scores,
                           dimension_matches = matches,
                           dominant_emotion = dominant,
                           dominant_score = dscore,
                           overall_intensity = overall,
                           intensity_level = get_intensity_level overall,
                           intensity_modifier = py_round modifier 2,
                           emotional_signature = generate_signature adjusted_scores\<rparr>)))"

definition analyze :: "(string list \<Rightarrow> string list) \<Rightarrow> string \<Rightarrow> pyval \<Rightarrow> string option
    \<Rightarrow> error + analysis" where
  "analyze set_order now text ctx =
     (if \<not> truthy text \<or> \<not> isinstance_str text
      then Inl (ValueError ''Text must be a non-empty string'')
      else (case text of
              PyStr s \<Rightarrow> analyze_str set_order now s ctx
            | _ \<Rightarrow> Inl (ValueError ''Text must be a non-empty string'')))"

section \<open>The aggregator\<close>

text \<open>
  A message is a dict. For each of its three keys the outer \<open>None\<close> says that the key is
  absent. The content is any value; the sender and the time stamp are optional strings,
  so \<open>Some None\<close> is a key that is present with the value \<open>None\<close>.
  \<open>analyze_messages\<close> adds two keys to each analysis, which makes the record
  \<open>msg_analysis\<close>.
\<close>

record message =
  msg_content :: "pyval option"
  msg_sender :: "string option option"
  msg_timestamp :: "string option option"

record msg_analysis = analysis +
  sender :: "string option"
  message_timestamp :: "string option"

record sender_stats =
  count :: nat
  avg_intensity :: rat

record batch_result =
  total_messages :: nat
  analyzed_messages :: nat
  average_scores :: "(string \<times> rat) list"
  dominant_overall :: string
  emotional_arc :: "(string option \<times> string \<times> rat) list"
  by_sender :: "(string option \<times> sender_stats) list"
  individual_analyses :: "msg_analysis list"

text \<open>\<open>d[k].append(v)\<close> on a \<open>defaultdict(list)\<close>: a new key goes to the end.\<close>

fun dd_append :: "('k \<times> 'v list) list \<Rightarrow> 'k \<Rightarrow> 'v \<Rightarrow> ('k \<times> 'v list) list" where
  "dd_append [] k v = [(k, [v])]"
| "dd_append ((k', vs) # kvs) k v =
     (if k' = k then (k', vs @ [v]) # kvs else (k', vs) # dd_append kvs k v)"

text \<open>
  The loop over the messages. \<open>clock i\<close> is the reading of the clock in the \<open>i\<close>-th call
  of \<open>analyze\<close>; an error of \<open>analyze\<close> ends the loop.
\<close>

fun analyze_each :: "(string list \<Rightarrow> string list) \<Rightarrow> (nat \<Rightarrow> string) \<Rightarrow> message list \<Rightarrow>
    msg_analysis list \<Rightarrow> (string option \<times> msg_analysis list) list \<Rightarrow>
    error + (msg_analysis list \<times> (string option \<times> msg_analysis list) list)" where
  "analyze_each set_order clock [] done grouped = Inr (done, grouped)"
| "analyze_each set_order clock (msg # msgs) done grouped =
     (let content = (case msg_content msg of None \<Rightarrow> PyStr [] | Some v \<Rightarrow> v);
          who = (case msg_sender msg of None \<Rightarrow> Some ''UNKNOWN'' | Some x \<Rightarrow> x)
      in if truthy content
         then (case analyze set_order (clock (length done)) content who of
                 Inl e \<Rightarrow> Inl e
               | Inr a \<Rightarrow>
                   (let a' = analysis.extend a
                               (msg_analysis.fields who
                                  (case msg_timestamp msg of None \<Rightarrow> Some ''unknown'' | Some t \<Rightarrow> t))
                    in analyze_each set_order clock msgs (done @ [a']) (dd_append grouped who a')))
         else analyze_each set_order clock msgs done grouped)"

definition collect_scores :: "msg_analysis list \<Rightarrow> (string \<times> rat list) list" where
  "collect_scores done =
     fold (\<lambda>a acc. fold (\<lambda>(dim, score) acc'. dd_append acc' dim score) (dimension_scores a) acc)
          done []"

definition analyze_messages :: "(string list \<Rightarrow> string list) \<Rightarrow> (nat \<Rightarrow> string) \<Rightarrow> message list
    \<Rightarrow> error + batch_result" where
  "analyze_messages set_order clock messages =
     (if messages = [] then Inl (ValueError ''Messages list cannot be empty'')
      else case analyze_each set_order clock messages [] [] of
        Inl e \<Rightarrow> Inl e
      | Inr (done, grouped) \<Rightarrow>
          (let avg_scores = map (\<lambda>(dim, scores).
                                   (dim, py_round (fdiv (py_sum scores)
                                                        (float_of_nat (length scores))) 2))
                                (collect_scores done)
           in case (if avg_scores \<noteq> [] then py_max_key avg_scores else Inr ''UNKNOWN'') of
                Inl e \<Rightarrow> Inl e
              | Inr best \<Rightarrow>
                  Inr \<lparr>total_messages = length messages,
                       analyzed_messages = length done,
                       average_scores = avg_scores,
                       dominant_overall = best,
                       emotional_arc = map (\<lambda>a. (sender a, dominant_emotion a, overall_intensity a)) done,
                       by_sender = map (\<lambda>(who, sender_analyses).
                           (who, \<lparr>count = length sender_analyses,
                                  avg_intensity =
                                    (if sender_analyses \<noteq> []
                                     then py_round (fdiv (py_sum (map overall_intensity sender_analyses))
                                                         (float_of_nat (length sender_analyses))) 2
                                     else 0)\<rparr>)) grouped,
                       individual_analyses = done\<rparr>))"

section \<open>The profile tracker\<close>

text \<open>
  A profile stores analyses of any shape. The profiles of the analyzer are a dict from
  agent names to profiles. Both methods read the clock: \<open>EmotionalProfile\<close> (the
  constructor) when the profile is created, \<open>add_analysis\<close> at every addition.
\<close>

record 'a emotional_profile =
  agent_name :: string
  analyses :: "'a list"
  created_at :: string
  last_updated :: string

definition EmotionalProfile :: "string \<Rightarrow> string \<Rightarrow> 'a emotional_profile" where
  "EmotionalProfile now name =
     \<lparr>agent_name = name, analyses = [], created_at = now, last_updated = now\<rparr>"

definition add_analysis :: "string \<Rightarrow> 'a emotional_profile \<Rightarrow> 'a \<Rightarrow> 'a emotional_profile" where
  "add_analysis now p a = p\<lparr>analyses := analyses p @ [a], last_updated := now\<rparr>"

definition get_profile :: "(string \<rightharpoonup> 'a emotional_profile) \<Rightarrow> string \<Rightarrow> 'a emotional_profile option" where
  "get_profile profiles name = profiles name"

text \<open>
  \<open>add_to_profile\<close> returns the updated profile and the updated dict. \<open>now_init\<close> is
  the reading of the clock in the constructor (used when the agent is unknown),
  \<open>now_add\<close> the one in \<open>add_analysis\<close>. The profile object is shared between the
  dict and the result, so the addition shows in both.
\<close>

definition add_to_profile :: "string \<Rightarrow> string \<Rightarrow> (string \<rightharpoonup> 'a emotional_profile) \<Rightarrow> string \<Rightarrow> 'a \<Rightarrow>
    error + ('a emotional_profile \<times> (string \<rightharpoonup> 'a emotional_profile))" where
  "add_to_profile now_init now_add profiles name a =
     (let profiles1 = (if name \<notin> dom profiles
                       then profiles(name \<mapsto> EmotionalProfile now_init name) else profiles)
      in case profiles1 name of
           None \<Rightarrow> Inl (KeyError name)
         | Some p0 \<Rightarrow> (let p = add_analysis now_add p0 a in Inr (p, profiles1(name \<mapsto> p))))"

section \<open>Derived notions used in the statements\<close>

text \<open>
  The adjusted scores that \<open>analyze\<close> computes for a text, as one list in registry
  order, and the entry that \<open>max\<close> selects from it.
\<close>

definition adjusted_scores_of :: "string \<Rightarrow> (string \<times> rat) list" where
  "adjusted_scores_of text =
     map (\<lambda>(dim, cfg). (dim, py_round (fmul (score_dimension text cfg) (calculate_intensity_modifier text)) 2))
         EMOTIONAL_DIMENSIONS"

definition dominant_of :: "string \<Rightarrow> string \<times> rat" where
  "dominant_of text = max_from (hd (adjusted_scores_of text)) (tl (adjusted_scores_of text))"


text \<open>
  The expression \<open>1.0 + 0.1*A - 0.1*D\<close> of the specification for \<open>A\<close> amplifier and
  \<open>D\<close> diminisher matches, in the arithmetic of Python floats.
\<close>

definition modifier_expr :: "nat \<Rightarrow> nat \<Rightarrow> rat" where
  "modifier_expr a d = fsub (fadd 1 (fmul (float_of_nat a) (fl (1 / 10))))
                            (fmul (float_of_nat d) (fl (1 / 10)))"



text \<open>A sample profile, with two analyses stored.\<close>

definition forge_profile :: "nat emotional_profile" where
  "forge_profile = \<lparr>agent_name = ''FORGE'', analyses = [1, 2],
     created_at = ''2026-01-30T09:00:00'', last_updated = ''2026-01-30T09:30:00''\<rparr>"

text \<open>
  The content, the sender and the time stamp that \<open>analyze_messages\<close> reads from a
  message, the messages of a batch that have content (those that are analysed), the
  grouping by sender that its loop builds from a list of analyses, and the statistics it
  reports for the groups.
\<close>

definition content_of :: "message \<Rightarrow> pyval" where
  "content_of msg = (case msg_content msg of None \<Rightarrow> PyStr [] | Some v \<Rightarrow> v)"

definition sender_of :: "message \<Rightarrow> string option" where
  "sender_of msg = (case msg_sender msg of None \<Rightarrow> Some ''UNKNOWN'' | Some x \<Rightarrow> x)"

definition timestamp_of :: "message \<Rightarrow> string option" where
  "timestamp_of msg = (case msg_timestamp msg of None \<Rightarrow> Some ''unknown'' | Some t \<Rightarrow> t)"

definition with_content :: "message list \<Rightarrow> message list" where
  "with_content msgs = filter (\<lambda>m. truthy (content_of m)) msgs"

definition group_all :: "msg_analysis list \<Rightarrow> (string option \<times> msg_analysis list) list
    \<Rightarrow> (string option \<times> msg_analysis list) list" where
  "group_all new grouped = fold (\<lambda>a g. dd_append g (sender a) a) new grouped"

definition by_sender_of :: "(string option \<times> msg_analysis list) list
    \<Rightarrow> (string option \<times> sender_stats) list" where
  "by_sender_of grouped =
     map (\<lambda>(who, sender_analyses).
            (who, \<lparr>count = length sender_analyses,
                   avg_intensity =
                     (if sender_analyses \<noteq> []
                      then py_round (fdiv (py_sum (map overall_intensity sender_analyses))
                                          (float_of_nat (length sender_analyses))) 2
                      else 0)\<rparr>)) grouped"

text \<open>
  Two sample batches: three messages with content from FORGE, CLIO and FORGE, and the
  same batch followed by a message with empty content and a message without content.
\<close>

definition batch3 :: "message list" where
  "batch3 =
     [\<lparr>msg_content = Some (PyStr ''I am so happy!''), msg_sender = Some (Some ''FORGE''), msg_timestamp = None\<rparr>,
      \<lparr>msg_content = Some (PyStr ''This is wonderful news.''), msg_sender = Some (Some ''CLIO''), msg_timestamp = None\<rparr>,
      \<lparr>msg_content = Some (PyStr ''I feel grateful.''), msg_sender = Some (Some ''FORGE''), msg_timestamp = None\<rparr>]"

definition batch5 :: "message list" where
  "batch5 = batch3 @
     [\<lparr>msg_content = Some (PyStr []), msg_sender = Some (Some ''CLIO''), msg_timestamp = None\<rparr>,
      \<lparr>msg_content = None, msg_sender = None, msg_timestamp = None\<rparr>]"

text \<open>
  A set order that a Python process can have: \<open>list(set(xs))\<close> has the elements of
  \<open>xs\<close>, each once. \<open>analysis_content\<close> is an analysis without its time stamp and
  without the order of its lists of matches.
\<close>

definition valid_set_order :: "(string list \<Rightarrow> string list) \<Rightarrow> bool" where
  "valid_set_order h = (\<forall>xs. distinct (h xs) \<and> set (h xs) = set xs)"

definition analysis_content :: "analysis \<Rightarrow>
    nat \<times> nat \<times> string option \<times> (string \<times> rat) list \<times> (string \<times> string set) list
    \<times> string \<times> rat \<times> rat \<times> string \<times> rat \<times> string" where
  "analysis_content a =
     (text_length a, word_count a, context_label a, dimension_scores a,
      map (\<lambda>(dim, ms). (dim, set ms)) (dimension_matches a),
      dominant_emotion a, dominant_score a, overall_intensity a, intensity_level a,
      intensity_modifier a, emotional_signature a)"

section \<open>Lemmas about the rounding to doubles\<close>

lemma bit_length_upper: "n < 2 ^ bit_length n"
proof (induction n rule: bit_length.induct)
  case (1 n)
  show ?case
  proof (cases "n = 0")
    case True
    then show ?thesis by (simp add: bit_length.simps[of n])
  next
    case False
    from 1[OF False] have "n div 2 < 2 ^ bit_length (n div 2)" .
    then have "n < 2 * 2 ^ bit_length (n div 2)" by linarith
    then show ?thesis using False by (simp add: bit_length.simps[of n])
  qed
qed

lemma bit_length_pos: "0 < n \<Longrightarrow> 0 < bit_length n"
  by (simp add: bit_length.simps[of n])

lemma bit_length_lower: "0 < n \<Longrightarrow> 2 ^ (bit_length n - 1) \<le> n"
proof (induction n rule: bit_length.induct)
  case (1 n)
  then have n: "n \<noteq> 0" by simp
  have bl: "bit_length n - 1 = bit_length (n div 2)"
    using n by (simp add: bit_length.simps[of n])
  show ?case
  proof (cases "n div 2 = 0")
    case True
    then have "bit_length (n div 2) = 0" by (simp add: bit_length.simps[of 0])
    then show ?thesis using bl 1(2) by simp
  next
    case False
    then have p: "0 < n div 2" by simp
    from 1(1)[OF n p] have "2 ^ (bit_length (n div 2) - 1) \<le> n div 2" .
    moreover have "(2::nat) ^ bit_length (n div 2) = 2 * 2 ^ (bit_length (n div 2) - 1)"
      using bit_length_pos[OF p] by (cases "bit_length (n div 2)") simp_all
    ultimately have "2 ^ bit_length (n div 2) \<le> 2 * (n div 2)" by simp
    then show ?thesis unfolding bl by linarith
  qed
qed

lemma exponent_bounds:
  assumes "0 < x"
  shows "power_int 2 (exponent x) \<le> x \<and> x < power_int 2 (exponent x + 1)"
proof (cases "1 \<le> x")
  case True
  define n where "n = nat \<lfloor>x\<rfloor>"
  have fl1: "1 \<le> \<lfloor>x\<rfloor>" using True by simp
  then have n: "0 < n" and nf: "int n = \<lfloor>x\<rfloor>" by (simp_all add: n_def)
  have e: "exponent x = int (bit_length n) - 1" using True by (simp add: exponent_def n_def)
  have e': "exponent x = int (bit_length n - 1)" using bit_length_pos[OF n] e by simp
  have "(of_nat (2 ^ (bit_length n - 1)) :: rat) \<le> of_nat n"
    using bit_length_lower[OF n] by (rule of_nat_mono)
  then have "(2::rat) ^ (bit_length n - 1) \<le> of_nat n" by simp
  also have "(of_nat n :: rat) = of_int \<lfloor>x\<rfloor>" unfolding nf[symmetric] by simp
  also have "\<dots> \<le> x" by simp
  finally have lo: "power_int 2 (exponent x) \<le> x" unfolding e' by simp
  have "Suc n \<le> 2 ^ bit_length n" using bit_length_upper[of n] by simp
  then have "int (Suc n) \<le> int (2 ^ bit_length n)" by (rule of_nat_mono)
  then have "int n + 1 \<le> 2 ^ bit_length n" by simp
  then have "\<lfloor>x\<rfloor> + 1 \<le> 2 ^ bit_length n" using nf by simp
  then have "(of_int (\<lfloor>x\<rfloor> + 1) :: rat) \<le> of_int (2 ^ bit_length n)" by (rule of_int_le_iff[THEN iffD2])
  then have "(of_int \<lfloor>x\<rfloor> :: rat) + 1 \<le> 2 ^ bit_length n" by simp
  moreover have "x < of_int \<lfloor>x\<rfloor> + 1" by linarith
  ultimately have "x < 2 ^ bit_length n" by linarith
  then have hi: "x < power_int 2 (exponent x + 1)" unfolding e by simp
  show ?thesis using lo hi by simp
next
  case False
  then have x1: "x < 1" by simp
  define y where "y = 1 / x"
  have y1: "1 < y" using assms x1 by (simp add: y_def)
  define n where "n = nat (\<lceil>y\<rceil> - 1)"
  have c2: "2 \<le> \<lceil>y\<rceil>" using y1 by linarith
  then have n: "0 < n" and nf: "int n = \<lceil>y\<rceil> - 1" by (simp_all add: n_def)
  define k where "k = bit_length n"
  have k: "0 < k" using bit_length_pos[OF n] by (simp add: k_def)
  have e: "exponent x = - int k" using False by (simp add: exponent_def n_def k_def y_def)
  have "Suc n \<le> 2 ^ k" using bit_length_upper[of n] by (simp add: k_def)
  then have "int (Suc n) \<le> int (2 ^ k)" by (rule of_nat_mono)
  then have "int n + 1 \<le> 2 ^ k" by simp
  then have "\<lceil>y\<rceil> \<le> 2 ^ k" using nf by simp
  then have "(of_int \<lceil>y\<rceil> :: rat) \<le> of_int (2 ^ k)" by (rule of_int_le_iff[THEN iffD2])
  then have "(of_int \<lceil>y\<rceil> :: rat) \<le> 2 ^ k" by simp
  moreover have "y \<le> of_int \<lceil>y\<rceil>" by simp
  ultimately have yk: "y \<le> 2 ^ k" by linarith
  have lo: "power_int 2 (exponent x) \<le> x"
  proof -
    have "1 / x \<le> 2 ^ k" using yk by (simp add: y_def)
    then have "1 \<le> 2 ^ k * x" using assms by (simp add: field_simps)
    then have "1 / 2 ^ k \<le> x" by (simp add: field_simps)
    then show ?thesis unfolding e by (simp add: power_int_minus_divide)
  qed
  have "(2::nat) ^ (k - 1) \<le> n" using bit_length_lower[OF n] by (simp add: k_def)
  then have "(of_nat (2 ^ (k - 1)) :: rat) \<le> of_nat n" by (rule of_nat_mono)
  then have "(2::rat) ^ (k - 1) \<le> of_nat n" by simp
  also have "(of_nat n :: rat) = of_int (\<lceil>y\<rceil> - 1)" unfolding nf[symmetric] by simp
  also have "\<dots> < y" by linarith
  finally have ky: "2 ^ (k - 1) < y" .
  have hi: "x < power_int 2 (exponent x + 1)"
  proof -
    have "2 ^ (k - 1) < 1 / x" using ky by (simp add: y_def)
    then have "2 ^ (k - 1) * x < 1" using assms by (simp add: field_simps)
    then have "x < 1 / 2 ^ (k - 1)" by (simp add: field_simps)
    moreover have "exponent x + 1 = - int (k - 1)" using k e by simp
    ultimately show ?thesis by (simp add: power_int_minus_divide)
  qed
  show ?thesis using lo hi by simp
qed

lemma exponent_unique:
  assumes "power_int 2 e \<le> x" and "x < power_int 2 (e + 1)"
  shows "exponent x = e"
proof -
  have pos: "0 < x" using assms(1) zero_less_power_int[of "2::rat" e] by linarith
  note b = exponent_bounds[OF pos]
  have "\<not> e + 1 \<le> exponent x"
  proof
    assume "e + 1 \<le> exponent x"
    then have "power_int (2::rat) (e + 1) \<le> power_int 2 (exponent x)"
      by (rule power_int_increasing) simp
    with b assms(2) show False by linarith
  qed
  moreover have "\<not> exponent x + 1 \<le> e"
  proof
    assume "exponent x + 1 \<le> e"
    then have "power_int (2::rat) (exponent x + 1) \<le> power_int 2 e"
      by (rule power_int_increasing) simp
    with b assms(1) show False by linarith
  qed
  ultimately show ?thesis by linarith
qed

lemma rhe_error: "\<bar>of_int (rhe y) - y\<bar> \<le> 1 / 2"
proof -
  have "of_int \<lfloor>y\<rfloor> \<le> y" "y < of_int \<lfloor>y\<rfloor> + 1" by linarith+
  then show ?thesis
    unfolding rhe_def Let_def by (auto split: if_splits) 
qed

lemma rhe_eqI:
  assumes "\<bar>y - of_int m\<bar> < 1 / 2"
  shows "rhe y = m"
proof -
  have "\<bar>(of_int (rhe y) :: rat) - of_int m\<bar> < 1"
    using rhe_error[of y] assms by linarith
  then have "\<bar>(of_int (rhe y - m) :: rat)\<bar> < 1" by simp
  then have "\<bar>rhe y - m\<bar> < 1" by (metis of_int_1 of_int_abs of_int_less_iff)
  then show ?thesis by linarith
qed

lemma rhe_of_int: "rhe (of_int m) = m"
  by (rule rhe_eqI) simp

lemma rhe_nonneg: "0 \<le> y \<Longrightarrow> 0 \<le> rhe y"
  unfolding rhe_def Let_def by (auto split: if_splits)

lemma fl_zero: "fl 0 = 0"
  by (simp add: fl_def)

lemma fl_pos_def:
  "0 < x \<Longrightarrow> fl x = of_int (rhe (x / power_int 2 (exponent x - 52))) * power_int 2 (exponent x - 52)"
  by (simp add: fl_def Let_def)

lemma fl_nonneg: "0 \<le> x \<Longrightarrow> 0 \<le> fl x"
proof (cases "x = 0")
  case True
  then show ?thesis by (simp add: fl_zero)
next
  case False
  assume "0 \<le> x"
  with False have pos: "0 < x" by simp
  have q: "0 < power_int (2::rat) (exponent x - 52)" by simp
  have "0 \<le> x / power_int 2 (exponent x - 52)" using pos q by simp
  then have "0 \<le> rhe (x / power_int 2 (exponent x - 52))" by (rule rhe_nonneg)
  then show ?thesis unfolding fl_pos_def[OF pos] using q by simp
qed

lemma fl_eqI:
  assumes "power_int 2 e \<le> x" and "x < power_int 2 (e + 1)"
    and "\<bar>x / power_int 2 (e - 52) - of_int m\<bar> < 1 / 2"
  shows "fl x = of_int m * power_int 2 (e - 52)"
proof -
  have pos: "0 < x" using assms(1) zero_less_power_int[of "2::rat" e] by linarith
  have e: "exponent x = e" using assms(1,2) by (rule exponent_unique)
  show ?thesis unfolding fl_pos_def[OF pos] e rhe_eqI[OF assms(3)] ..
qed


lemma fl_of_nat:
  assumes "n < 2 ^ 53"
  shows "fl (of_nat n) = of_nat n"
proof (cases "n = 0")
  case True
  then show ?thesis by (simp add: fl_zero)
next
  case False
  then have pos: "0 < (of_nat n :: rat)" by simp
  define e where "e = exponent (of_nat n)"
  have lo: "power_int 2 e \<le> (of_nat n :: rat)" using exponent_bounds[OF pos] by (simp add: e_def)
  have "(of_nat n :: rat) < of_nat (2 ^ 53)" using assms by (rule of_nat_less_iff[THEN iffD2])
  then have "(of_nat n :: rat) < power_int 2 53" by simp
  with lo have "power_int (2::rat) e < power_int 2 53" by linarith
  then have "\<not> 53 \<le> e" using power_int_increasing[of 53 e "2::rat"] by auto
  then have e52: "0 \<le> 52 - e" by simp
  have q: "power_int (2::rat) (e - 52) = 1 / 2 ^ nat (52 - e)"
    using e52 by (simp add: power_int_def field_simps flip: power_inverse)
  have "(of_nat n :: rat) / power_int 2 (e - 52) = of_int (int n * 2 ^ nat (52 - e))"
    unfolding q by simp
  then have r: "rhe (of_nat n / power_int 2 (e - 52)) = int n * 2 ^ nat (52 - e)"
    by (simp only: rhe_of_int)
  show ?thesis
    unfolding fl_pos_def[OF pos] e_def[symmetric] r unfolding q by simp
qed

lemma rhe_tie:
  assumes "y = of_int f + 1 / 2"
  shows "rhe y = (if even f then f else f + 1)"
proof -
  have "\<lfloor>y\<rfloor> = f" unfolding assms by (rule floor_unique) simp_all
  then show ?thesis unfolding rhe_def Let_def by (simp add: assms)
qed

lemma fl_eqI_rhe:
  assumes "power_int 2 e \<le> x" and "x < power_int 2 (e + 1)"
    and "rhe (x / power_int 2 (e - 52)) = m"
  shows "fl x = of_int m * power_int 2 (e - 52)"
proof -
  have pos: "0 < x" using assms(1) zero_less_power_int[of "2::rat" e] by linarith
  have e: "exponent x = e" using assms(1,2) by (rule exponent_unique)
  show ?thesis unfolding fl_pos_def[OF pos] e assms(3) ..
qed



lemma fmul_nonneg: "0 \<le> x \<Longrightarrow> 0 \<le> y \<Longrightarrow> 0 \<le> fmul x y"
  unfolding fmul_def by (intro fl_nonneg mult_nonneg_nonneg)

lemma fdiv_nonneg: "0 \<le> x \<Longrightarrow> 0 \<le> y \<Longrightarrow> 0 \<le> fdiv x y"
  unfolding fdiv_def by (intro fl_nonneg divide_nonneg_nonneg)

lemma float_of_nat_nonneg: "0 \<le> float_of_nat n"
  unfolding float_of_nat_def by (intro fl_nonneg) simp

lemma fmul_zero_left: "fmul 0 y = 0"
  by (simp add: fmul_def fl_zero)

lemma py_round_nonneg: "0 \<le> x \<Longrightarrow> 0 \<le> py_round x n"
proof -
  assume "0 \<le> x"
  then have "0 \<le> x * 10 ^ n" by simp
  then have "0 \<le> rhe (x * 10 ^ n)" by (rule rhe_nonneg)
  then have "(0::rat) \<le> of_int (rhe (x * 10 ^ n)) / 10 ^ n" by simp
  then show ?thesis unfolding py_round_def by (rule fl_nonneg)
qed

lemma py_round_zero: "py_round 0 n = 0"
  using rhe_of_int[of 0] by (simp add: py_round_def fl_zero)

section \<open>Lemmas about the scorer\<close>


lemma registry_keys:
  "map fst EMOTIONAL_DIMENSIONS =
     [''WARMTH'', ''RESONANCE'', ''LONGING'', ''FEAR'', ''PEACE'', ''RECOGNITION'',
      ''BELONGING'', ''JOY'', ''CURIOSITY'', ''DETERMINATION'']"
  by (simp add: EMOTIONAL_DIMENSIONS_def)

lemma registry_distinct: "distinct (map fst EMOTIONAL_DIMENSIONS)"
  unfolding registry_keys by simp

lemma registry_weight_nonneg: "(d, cfg) \<in> set EMOTIONAL_DIMENSIONS \<Longrightarrow> 0 \<le> weight cfg"
proof -
  have "(0::rat) \<le> fl (12 / 10)" by (rule fl_nonneg) simp
  then show "(d, cfg) \<in> set EMOTIONAL_DIMENSIONS \<Longrightarrow> 0 \<le> weight cfg"
    by (auto simp: EMOTIONAL_DIMENSIONS_def)
qed

lemma adjusted_keys: "map fst (adjusted_scores_of text) = map fst EMOTIONAL_DIMENSIONS"
  by (simp add: adjusted_scores_of_def case_prod_beta comp_def)

lemma max_from_mem: "max_from b xs \<in> set (b # xs)"
  by (induction xs arbitrary: b) (auto split: if_splits)

lemma max_from_ge_best: "snd b \<le> snd (max_from b xs)"
proof (induction xs arbitrary: b)
  case Nil then show ?case by simp
next
  case (Cons x xs)
  show ?case
    using Cons.IH[of "if snd b < snd x then x else b"] by (auto split: if_splits)
qed

lemma max_from_ge: "x \<in> set (b # xs) \<Longrightarrow> snd x \<le> snd (max_from b xs)"
proof (induction xs arbitrary: b)
  case Nil then show ?case by simp
next
  case (Cons y ys)
  show ?case
    using Cons.prems Cons.IH[of "if snd b < snd y then y else b"]
          max_from_ge_best[of "if snd b < snd y then y else b" ys]
    by (auto split: if_splits)
qed


lemma max_from_first:
  "\<exists>ys zs. b # xs = ys @ max_from b xs # zs \<and> (\<forall>y \<in> set ys. snd y < snd (max_from b xs))"
proof (induction xs arbitrary: b)
  case Nil
  show ?case by (rule exI[of _ "[]"]) simp
next
  case (Cons x xs)
  define b' where "b' = (if snd b < snd x then x else b)"
  have m: "max_from b (x # xs) = max_from b' xs" by (simp add: b'_def)
  from Cons.IH[of b'] obtain ys zs where
    split: "b' # xs = ys @ max_from b' xs # zs" and
    less: "\<forall>y \<in> set ys. snd y < snd (max_from b' xs)" by blast
  show ?case
  proof (cases ys)
    case Nil
    note c = split[unfolded Nil append_Nil list.inject]
    from c have eq: "max_from b' xs = b'" by (rule conjunct1[THEN sym])
    from c have zs: "zs = xs" by (rule conjunct2[THEN sym])
    show ?thesis
    proof (cases "snd b < snd x")
      case True
      then have "b' = x" by (simp add: b'_def)
      then have "b # x # xs = [b] @ max_from b (x # xs) # xs \<and>
                 (\<forall>y \<in> set [b]. snd y < snd (max_from b (x # xs)))"
        using True m eq by simp
      then show ?thesis by blast
    next
      case False
      then have "b' = b" by (simp add: b'_def)
      then have "b # x # xs = [] @ max_from b (x # xs) # (x # xs) \<and>
                 (\<forall>y \<in> set []. snd y < snd (max_from b (x # xs)))"
        using m eq by simp
      then show ?thesis by blast
    qed
  next
    case (Cons y0 ys')
    note c = split[unfolded Cons append_Cons list.inject]
    from c have y0: "y0 = b'" by (rule conjunct1[THEN sym])
    from c have xs: "xs = ys' @ max_from b' xs # zs" by (rule conjunct2)
    have lt: "snd b' < snd (max_from b' xs)" using less Cons y0 by simp
    have "snd b \<le> snd b'" "snd x \<le> snd b'" by (auto simp: b'_def)
    then have "snd b < snd (max_from b' xs)" "snd x < snd (max_from b' xs)" using lt by auto
    moreover have "\<forall>y \<in> set ys'. snd y < snd (max_from b' xs)" using less Cons by simp
    moreover have "b # x # xs = (b # x # ys') @ max_from b' xs # zs" using xs by simp
    ultimately have "b # x # xs = (b # x # ys') @ max_from b (x # xs) # zs \<and>
                 (\<forall>y \<in> set (b # x # ys'). snd y < snd (max_from b (x # xs)))"
      using m by simp
    then show ?thesis by blast
  qed
qed

lemma adjusted_nonempty: "adjusted_scores_of text \<noteq> []"
  by (simp add: adjusted_scores_of_def EMOTIONAL_DIMENSIONS_def)

lemma analyze_str_adjusted:
  "map (\<lambda>(dim, score). (dim, py_round (fmul score (calculate_intensity_modifier text)) 2))
       (map (\<lambda>(dim, cfg). (dim, score_dimension text cfg)) EMOTIONAL_DIMENSIONS)
   = adjusted_scores_of text"
  by (simp add: adjusted_scores_of_def case_prod_beta comp_def)

lemma dominant_mem: "dominant_of text \<in> set (adjusted_scores_of text)"
  using max_from_mem[of "hd (adjusted_scores_of text)" "tl (adjusted_scores_of text)"]
        adjusted_nonempty[of "text"]
  by (simp add: dominant_of_def)

lemma py_max_key_adjusted: "py_max_key (adjusted_scores_of text) = Inr (fst (dominant_of text))"
  using adjusted_nonempty[of "text"]
  by (cases "adjusted_scores_of text") (simp_all add: dominant_of_def)

lemma map_of_dominant:
  "map_of (adjusted_scores_of text) (fst (dominant_of text)) = Some (snd (dominant_of text))"
proof -
  have "distinct (map fst (adjusted_scores_of text))"
    by (simp add: adjusted_keys registry_distinct)
  moreover have "(fst (dominant_of text), snd (dominant_of text)) \<in> set (adjusted_scores_of text)"
    using dominant_mem by simp
  ultimately show ?thesis by (rule map_of_is_SomeI)
qed

lemma analyze_str_Inr:
  "analyze_str h now text ctx =
     Inr \<lparr>timestamp = now,
          text_length = length text,
          word_count = length (py_split text),
          context_label = ctx,
          dimension_scores = adjusted_scores_of text,
          dimension_matches =
            map (\<lambda>(dim, cfg). (dim, h (matches_of (patterns cfg) text))) EMOTIONAL_DIMENSIONS,
          dominant_emotion = fst (dominant_of text),
          dominant_score = snd (dominant_of text),
          overall_intensity =
            py_round (fdiv (py_sum (map snd (adjusted_scores_of text)))
                           (float_of_nat (length (adjusted_scores_of text)))) 2,
          intensity_level = get_intensity_level
            (py_round (fdiv (py_sum (map snd (adjusted_scores_of text)))
                           (float_of_nat (length (adjusted_scores_of text)))) 2),
          intensity_modifier = py_round (calculate_intensity_modifier text) 2,
          emotional_signature = generate_signature (adjusted_scores_of text)\<rparr>"
  unfolding analyze_str_def Let_def analyze_str_adjusted
  by (simp add: py_max_key_adjusted map_of_dominant)

lemma analyze_PyStr: "s \<noteq> [] \<Longrightarrow> analyze h now (PyStr s) ctx = analyze_str h now s ctx"
  by (simp add: analyze_def)

lemma split_from_nonempty:
  "split_from cur s \<noteq> [] \<longleftrightarrow> cur \<noteq> [] \<or> (\<exists>c \<in> set s. \<not> is_space c)"
  by (induction s arbitrary: cur) auto

lemma py_split_nonempty: "py_split s \<noteq> [] \<longleftrightarrow> (\<exists>c \<in> set s. \<not> is_space c)"
  using split_from_nonempty[of "[]" s] by (simp add: py_split_def)

lemma score_dimension_no_words: "py_split s = [] \<Longrightarrow> score_dimension s cfg = 0"
  by (simp add: score_dimension_def py_round_zero)

lemma adjusted_no_words:
  "py_split s = [] \<Longrightarrow> x \<in> set (adjusted_scores_of s) \<Longrightarrow> snd x = 0"
  by (auto simp: adjusted_scores_of_def score_dimension_no_words fmul_zero_left py_round_zero)

lemma score_dimension_nonneg:
  "0 \<le> weight cfg \<Longrightarrow> 0 \<le> score_dimension s cfg"
  unfolding score_dimension_def Let_def
  by (intro py_round_nonneg) (auto intro!: fmul_nonneg fdiv_nonneg float_of_nat_nonneg)

lemma modifier_bounds: "1 / 2 \<le> calculate_intensity_modifier s \<and> calculate_intensity_modifier s \<le> 2"
  by (simp add: calculate_intensity_modifier_def Let_def)

lemma adjusted_nonneg: "x \<in> set (adjusted_scores_of s) \<Longrightarrow> 0 \<le> snd x"
proof -
  assume "x \<in> set (adjusted_scores_of s)"
  then obtain d cfg where dc: "(d, cfg) \<in> set EMOTIONAL_DIMENSIONS"
    and x: "x = (d, py_round (fmul (score_dimension s cfg) (calculate_intensity_modifier s)) 2)"
    by (auto simp: adjusted_scores_of_def)
  have "0 \<le> score_dimension s cfg"
    using registry_weight_nonneg[OF dc] by (rule score_dimension_nonneg)
  moreover have "0 \<le> calculate_intensity_modifier s" using modifier_bounds[of s] by simp
  ultimately show ?thesis using x by (simp add: py_round_nonneg fmul_nonneg)
qed

section \<open>Claims about the scorer\<close>

subsection \<open>Word count and text length of a sample text\<close>

lemma split_five:
  "py_split ''One two three four five'' = [''One'', ''two'', ''three'', ''four'', ''five'']"
  by code_simp

text \<open>
  C9 (amended): for the text \<open>One two three four five\<close>, \<open>analyze\<close> returns an analysis
  with \<open>word_count\<close> 5 and \<open>text_length\<close> 23, the number of characters of the text.
\<close>

theorem C9_word_count_and_text_length:
  "\<exists>a. analyze h now (PyStr ''One two three four five'') ctx = Inr a
       \<and> word_count a = 5 \<and> text_length a = 23"
  by (simp add: analyze_PyStr analyze_str_Inr split_five)

theorem C9_word_count_and_text_length_witness:
  "\<exists>a. analyze remdups ''2026-01-30T10:00:00'' (PyStr ''One two three four five'') None = Inr a
       \<and> word_count a = 5 \<and> text_length a = 23"
  by (rule C9_word_count_and_text_length)

text \<open>The text length of that text is not 25.\<close>

theorem C9_text_length_25_counterexample:
  "(case analyze remdups ''2026-01-30T10:00:00'' (PyStr ''One two three four five'') None of
      Inl e \<Rightarrow> False
    | Inr a \<Rightarrow> word_count a = 5 \<and> text_length a = 23 \<and> text_length a \<noteq> 25)"
  by (simp add: analyze_PyStr analyze_str_Inr split_five)

subsection \<open>Tokens of a validated text\<close>

text \<open>
  C3 (amended): a text that passes the validation of \<open>analyze\<close> has at least one
  white-space-delimited token exactly when it has a character that is not white space;
  and when it has no token, the branch for \<open>word_count == 0\<close> gives every dimension the
  score 0.
\<close>

theorem C3_tokens_of_validated_text:
  assumes "s \<noteq> []"
  shows "\<exists>a. analyze h now (PyStr s) ctx = Inr a
          \<and> (0 < word_count a \<longleftrightarrow> (\<exists>c \<in> set s. \<not> is_space c))
          \<and> (word_count a = 0 \<longrightarrow> (\<forall>x \<in> set (dimension_scores a). snd x = 0))"
  using assms
  by (simp add: analyze_PyStr analyze_str_Inr py_split_nonempty adjusted_no_words)

theorem C3_tokens_of_validated_text_witness:
  "'' '' \<noteq> [] \<and> (\<exists>a. analyze remdups ''2026-01-30T10:00:00'' (PyStr '' '') None = Inr a
          \<and> (0 < word_count a \<longleftrightarrow> (\<exists>c \<in> set '' ''. \<not> is_space c))
          \<and> (word_count a = 0 \<longrightarrow> (\<forall>x \<in> set (dimension_scores a). snd x = 0)))"
  using C3_tokens_of_validated_text[of "'' ''" remdups "''2026-01-30T10:00:00''" None] by simp

lemma split_blank: "py_split '' '' = []"
  by code_simp

text \<open>
  The text of one blank passes the validation (it is a non-empty string) and has no
  token: its word count is 0.
\<close>

theorem C3_blank_text_counterexample:
  "truthy (PyStr '' '') \<and> isinstance_str (PyStr '' '') \<and>
   (case analyze remdups ''2026-01-30T10:00:00'' (PyStr '' '') None of
      Inl e \<Rightarrow> False
    | Inr a \<Rightarrow> word_count a = 0 \<and> py_split '' '' = [])"
  by (simp add: analyze_PyStr analyze_str_Inr split_blank)

lemma analyze_invalid:
  "v = PyStr [] \<or> \<not> isinstance_str v \<Longrightarrow>
   analyze h now v ctx = Inl (ValueError ''Text must be a non-empty string'')"
  by (cases v) (auto simp: analyze_def)

lemma analyze_cases:
  "(v = PyStr [] \<or> \<not> isinstance_str v) \<or> (\<exists>s. v = PyStr s \<and> s \<noteq> [])"
  by (cases v) auto

subsection \<open>Input validation\<close>

text \<open>
  C6: \<open>analyze\<close> raises its input error exactly when the argument is the empty string
  or is not a string (\<open>None\<close>, a number, ...), and it raises no other error; its error
  for the empty string, for \<open>None\<close> and for 123 is that \<open>ValueError\<close>; and
  \<open>analyze_messages\<close> raises \<open>ValueError\<close> for an empty list of messages.
\<close>

theorem C6_invalid_input_errors:
  "((\<exists>e. analyze h now v ctx = Inl e) \<longleftrightarrow> (v = PyStr [] \<or> \<not> isinstance_str v))
   \<and> (\<forall>e. analyze h now v ctx = Inl e \<longrightarrow> e = ValueError ''Text must be a non-empty string'')
   \<and> analyze h now (PyStr []) ctx = Inl (ValueError ''Text must be a non-empty string'')
   \<and> analyze h now PyNone ctx = Inl (ValueError ''Text must be a non-empty string'')
   \<and> analyze h now (PyInt 123) ctx = Inl (ValueError ''Text must be a non-empty string'')
   \<and> analyze_messages h clock [] = Inl (ValueError ''Messages list cannot be empty'')"
proof -
  let ?m = "ValueError ''Text must be a non-empty string''"
  have 1: "((\<exists>e. analyze h now v ctx = Inl e) \<longleftrightarrow> (v = PyStr [] \<or> \<not> isinstance_str v))
           \<and> (\<forall>e. analyze h now v ctx = Inl e \<longrightarrow> e = ?m)"
  proof (cases "v = PyStr [] \<or> \<not> isinstance_str v")
    case True
    show ?thesis using True by (simp add: analyze_invalid[OF True])
  next
    case False
    then obtain s where v: "v = PyStr s" and s: "s \<noteq> []"
      using analyze_cases[of v] by blast
    have "\<exists>a. analyze h now v ctx = Inr a"
      unfolding v analyze_PyStr[OF s] analyze_str_Inr by (rule exI) (rule refl)
    then obtain a where a: "analyze h now v ctx = Inr a" ..
    show ?thesis using False by (simp add: a)
  qed
  have 3: "analyze_messages h clock [] = Inl (ValueError ''Messages list cannot be empty'')"
    by (simp add: analyze_messages_def)
  have 4: "analyze h now (PyStr []) ctx = Inl ?m" by (rule analyze_invalid) simp
  have 5: "analyze h now PyNone ctx = Inl ?m" by (rule analyze_invalid) simp
  have 6: "analyze h now (PyInt 123) ctx = Inl ?m" by (rule analyze_invalid) simp
  from 1 have k1: "(\<exists>e. analyze h now v ctx = Inl e) \<longleftrightarrow> (v = PyStr [] \<or> \<not> isinstance_str v)"
    by (rule conjunct1)
  from 1 have k2: "\<forall>e. analyze h now v ctx = Inl e \<longrightarrow> e = ?m"
    by (rule conjunct2)
  show ?thesis
    by (intro conjI) (rule k1, rule k2, rule 4, rule 5, rule 6, rule 3)
qed

theorem C6_invalid_input_errors_witness:
  "(\<exists>e. analyze remdups ''2026-01-30T10:00:00'' (PyInt 123) None = Inl e)
   \<and> \<not> isinstance_str (PyInt 123)
   \<and> analyze remdups ''2026-01-30T10:00:00'' (PyStr []) None = Inl (ValueError ''Text must be a non-empty string'')
   \<and> analyze remdups ''2026-01-30T10:00:00'' PyNone None = Inl (ValueError ''Text must be a non-empty string'')
   \<and> analyze remdups ''2026-01-30T10:00:00'' (PyInt 123) None = Inl (ValueError ''Text must be a non-empty string'')
   \<and> analyze_messages remdups (\<lambda>i. ''2026-01-30T10:00:00'') [] = Inl (ValueError ''Messages list cannot be empty'')"
proof -
  note T = C6_invalid_input_errors[of remdups "''2026-01-30T10:00:00''" "PyInt 123" None
                                      "\<lambda>i. ''2026-01-30T10:00:00''"]
  have n: "\<not> isinstance_str (PyInt 123)" by simp
  have ex: "\<exists>e. analyze remdups ''2026-01-30T10:00:00'' (PyInt 123) None = Inl e"
    by (rule T[THEN conjunct1, THEN iffD2]) (rule disjI2, rule n)
  show ?thesis
    by (rule conjI[OF ex conjI[OF n T[THEN conjunct2, THEN conjunct2]]])
qed

subsection \<open>The score mapping\<close>

text \<open>
  C1: for every non-empty string, \<open>analyze\<close> returns an analysis whose
  dimension scores have exactly the ten registry keys, each once, and every score is
  non-negative (a score is the rational number that its double denotes, so it is a
  finite number).
\<close>

theorem C1_ten_nonnegative_scores:
  assumes "s \<noteq> []"
  shows "\<exists>a. analyze h now (PyStr s) ctx = Inr a
          \<and> map fst (dimension_scores a) =
              [''WARMTH'', ''RESONANCE'', ''LONGING'', ''FEAR'', ''PEACE'', ''RECOGNITION'',
               ''BELONGING'', ''JOY'', ''CURIOSITY'', ''DETERMINATION'']
          \<and> distinct (map fst (dimension_scores a))
          \<and> length (dimension_scores a) = 10
          \<and> (\<forall>x \<in> set (dimension_scores a). 0 \<le> snd x)"
proof -
  have len: "length (adjusted_scores_of s) = 10"
    using arg_cong[OF adjusted_keys[of s], of length] by (simp add: registry_keys)
  show ?thesis
    using assms len
    by (simp add: analyze_PyStr analyze_str_Inr adjusted_keys registry_keys adjusted_nonneg)
qed

theorem C1_ten_nonnegative_scores_witness:
  "''I am happy'' \<noteq> [] \<and>
   (\<exists>a. analyze remdups ''2026-01-30T10:00:00'' (PyStr ''I am happy'') None = Inr a
          \<and> map fst (dimension_scores a) =
              [''WARMTH'', ''RESONANCE'', ''LONGING'', ''FEAR'', ''PEACE'', ''RECOGNITION'',
               ''BELONGING'', ''JOY'', ''CURIOSITY'', ''DETERMINATION'']
          \<and> distinct (map fst (dimension_scores a))
          \<and> length (dimension_scores a) = 10
          \<and> (\<forall>x \<in> set (dimension_scores a). 0 \<le> snd x))"
proof -
  have h: "''I am happy'' \<noteq> []" by simp
  show ?thesis
    by (rule conjI[OF h C1_ten_nonnegative_scores[OF h]])
qed

lemma dominant_split:
  "\<exists>ys zs. adjusted_scores_of s = ys @ dominant_of s # zs
     \<and> (\<forall>y \<in> set ys. snd y < snd (dominant_of s))
     \<and> (\<forall>z \<in> set zs. snd z \<le> snd (dominant_of s))"
proof -
  obtain b xs where bx: "adjusted_scores_of s = b # xs"
    using adjusted_nonempty[of s] by (cases "adjusted_scores_of s") auto
  then have d: "dominant_of s = max_from b xs" by (simp add: dominant_of_def)
  from max_from_first[of b xs] obtain ys zs where
    sp: "b # xs = ys @ max_from b xs # zs" and lt: "\<forall>y \<in> set ys. snd y < snd (max_from b xs)"
    by blast
  have "\<forall>z \<in> set zs. snd z \<le> snd (max_from b xs)"
  proof
    fix z assume "z \<in> set zs"
    then have "z \<in> set (b # xs)" unfolding sp by simp
    then show "snd z \<le> snd (max_from b xs)" by (rule max_from_ge)
  qed
  then show ?thesis using sp lt bx d by auto
qed

subsection \<open>The dominant dimension\<close>

text \<open>
  C5: for every non-empty string, the scores are listed in registry order, and the
  dominant dimension with its score is an entry of that list such that every entry
  before it has a strictly smaller score and every entry after it has a score that is
  not larger: it is the first dimension, in registry order, with the maximal score.
\<close>

theorem C5_dominant_is_first_maximum:
  assumes "s \<noteq> []"
  shows "\<exists>a ys zs. analyze h now (PyStr s) ctx = Inr a
          \<and> map fst (dimension_scores a) = map fst EMOTIONAL_DIMENSIONS
          \<and> dimension_scores a = ys @ (dominant_emotion a, dominant_score a) # zs
          \<and> (\<forall>y \<in> set ys. snd y < dominant_score a)
          \<and> (\<forall>z \<in> set zs. snd z \<le> dominant_score a)"
  using assms dominant_split[of s]
  by (simp add: analyze_PyStr analyze_str_Inr adjusted_keys)

theorem C5_dominant_is_first_maximum_witness:
  "''I am happy'' \<noteq> [] \<and>
   (\<exists>a ys zs. analyze remdups ''2026-01-30T10:00:00'' (PyStr ''I am happy'') None = Inr a
          \<and> map fst (dimension_scores a) = map fst EMOTIONAL_DIMENSIONS
          \<and> dimension_scores a = ys @ (dominant_emotion a, dominant_score a) # zs
          \<and> (\<forall>y \<in> set ys. snd y < dominant_score a)
          \<and> (\<forall>z \<in> set zs. snd z \<le> dominant_score a))"
proof -
  have h: "''I am happy'' \<noteq> []" by simp
  show ?thesis
    by (rule conjI[OF h C5_dominant_is_first_maximum[OF h]])
qed

subsection \<open>Two calls on the same text\<close>

lemma valid_set_order_remdups: "valid_set_order remdups"
  by (simp add: valid_set_order_def)

lemma valid_set_order_rev_remdups: "valid_set_order (\<lambda>xs. rev (remdups xs))"
  by (simp add: valid_set_order_def)

lemma analysis_content_analyze_str:
  assumes "valid_set_order h1" and "valid_set_order h2"
  shows "map_sum id analysis_content (analyze_str h1 now1 s ctx)
         = map_sum id analysis_content (analyze_str h2 now2 s ctx)"
proof -
  have "set (h1 xs) = set (h2 xs)" for xs
    using assms by (simp add: valid_set_order_def)
  then show ?thesis
    unfolding analyze_str_Inr by (simp add: analysis_content_def case_prod_beta comp_def)
qed

text \<open>
  C2 (amended): two calls of \<open>analyze\<close> on the same argument in one Python process give
  the same error, or two analyses that agree in every field except \<open>timestamp\<close>, which
  holds the reading of the clock of each call. Two calls in processes with different hash
  seeds agree in the same way, except that the list of matches of a dimension can come in
  another order: it has the same elements.
\<close>

theorem C2_same_text_same_result_up_to_timestamp:
  "analyze h now2 v ctx = map_sum id (\<lambda>a. a\<lparr>timestamp := now2\<rparr>) (analyze h now1 v ctx)
   \<and> (valid_set_order h1 \<and> valid_set_order h2 \<longrightarrow>
        map_sum id analysis_content (analyze h1 now1 v ctx)
        = map_sum id analysis_content (analyze h2 now2 v ctx))"
proof (cases "v = PyStr [] \<or> \<not> isinstance_str v")
  case True
  show ?thesis
    by (simp add: analyze_invalid[OF True])
next
  case False
  then obtain s where v: "v = PyStr s" and s: "s \<noteq> []"
    using analyze_cases[of v] by blast
  have one: "analyze h now2 v ctx = map_sum id (\<lambda>a. a\<lparr>timestamp := now2\<rparr>) (analyze h now1 v ctx)"
    unfolding v analyze_PyStr[OF s] analyze_str_Inr by simp
  have two: "map_sum id analysis_content (analyze h1 now1 v ctx)
        = map_sum id analysis_content (analyze h2 now2 v ctx)"
    if "valid_set_order h1 \<and> valid_set_order h2"
    unfolding v analyze_PyStr[OF s]
    using that by (intro analysis_content_analyze_str) simp_all
  show ?thesis
    using one two by (intro conjI impI)
qed

theorem C2_same_text_same_result_up_to_timestamp_witness:
  "valid_set_order remdups \<and> valid_set_order (\<lambda>xs. rev (remdups xs))
   \<and> analyze remdups ''2026-01-30T10:00:00.000002'' (PyStr ''I am happy'') None
     = map_sum id (\<lambda>a. a\<lparr>timestamp := ''2026-01-30T10:00:00.000002''\<rparr>)
         (analyze remdups ''2026-01-30T10:00:00.000001'' (PyStr ''I am happy'') None)
   \<and> map_sum id analysis_content
         (analyze remdups ''2026-01-30T10:00:00.000001'' (PyStr ''I am happy'') None)
     = map_sum id analysis_content
         (analyze (\<lambda>xs. rev (remdups xs)) ''2026-01-30T10:00:00.000002'' (PyStr ''I am happy'') None)"
proof -
  note T = C2_same_text_same_result_up_to_timestamp[of remdups "''2026-01-30T10:00:00.000002''"
             "PyStr ''I am happy''" None "''2026-01-30T10:00:00.000001''"
             remdups "\<lambda>xs. rev (remdups xs)"]
  note v = conjI[OF valid_set_order_remdups valid_set_order_rev_remdups]
  show ?thesis
    by (rule conjI[OF valid_set_order_remdups conjI[OF valid_set_order_rev_remdups
          conjI[OF T[THEN conjunct1] T[THEN conjunct2, THEN mp, OF v]]]])
qed

lemma analyze_timestamp:
  "s \<noteq> [] \<Longrightarrow> map_sum id timestamp (analyze h now (PyStr s) ctx) = Inr now"
  unfolding analyze_str_Inr by (simp add: analyze_PyStr analyze_str_Inr)

text \<open>Two calls on the same text at different times give different records.\<close>

theorem C2_timestamp_counterexample:
  "analyze remdups ''2026-01-30T10:00:00.000001'' (PyStr ''I am happy'') None
   \<noteq> analyze remdups ''2026-01-30T10:00:00.000002'' (PyStr ''I am happy'') None"
proof
  assume eq: "analyze remdups ''2026-01-30T10:00:00.000001'' (PyStr ''I am happy'') None
   = analyze remdups ''2026-01-30T10:00:00.000002'' (PyStr ''I am happy'') None"
  have s: "''I am happy'' \<noteq> []" by simp
  have "(Inr ''2026-01-30T10:00:00.000001'' :: error + string) = Inr ''2026-01-30T10:00:00.000002''"
    using arg_cong[OF eq, of "map_sum id timestamp"]
    unfolding analyze_timestamp[OF s] .
  then show False by simp
qed

section \<open>Claims decided by computation\<close>

lemma fl_tenth: "fl (1 / 10) = 3602879701896397 / 36028797018963968"
proof -
  have "fl (1 / 10) = of_int 7205759403792794 * power_int 2 (- 4 - 52)"
    by (rule fl_eqI) (simp_all add: power_int_minus_divide)
  then show ?thesis by (simp add: power_int_minus_divide)
qed








lemma fl_13_tenths: "fl (46837436124653161 / 36028797018963968) = 5854679515581645 / 4503599627370496"
proof -
  have "fl (46837436124653161 / 36028797018963968) = of_int 5854679515581645 * power_int 2 (0 - 52)"
    by (rule fl_eqI) (simp_all add: power_int_minus_divide)
  then show ?thesis by (simp add: power_int_minus_divide)
qed

lemma fl_1_plus_13_tenths: "fl (10358279142952141 / 4503599627370496) = 2589569785738035 / 1125899906842624"
proof -
  have r: "rhe (10358279142952141 / 4503599627370496 / power_int 2 (1 - 52)) = 5179139571476070"
    using rhe_tie[of "10358279142952141 / 4503599627370496 / power_int 2 (1 - 52)" 5179139571476070] by (simp add: power_int_minus_divide)
  have "fl (10358279142952141 / 4503599627370496) = of_int 5179139571476070 * power_int 2 (1 - 52)"
    by (rule fl_eqI_rhe[OF _ _ r]) (simp_all add: power_int_minus_divide)
  then show ?thesis by (simp add: power_int_minus_divide)
qed

lemma fl_3_tenths: "fl (10808639105689191 / 36028797018963968) = 1351079888211149 / 4503599627370496"
proof -
  have r: "rhe (10808639105689191 / 36028797018963968 / power_int 2 (- 2 - 52)) = 5404319552844596"
    using rhe_tie[of "10808639105689191 / 36028797018963968 / power_int 2 (- 2 - 52)" 5404319552844595] by (simp add: power_int_minus_divide)
  have "fl (10808639105689191 / 36028797018963968) = of_int 5404319552844596 * power_int 2 (- 2 - 52)"
    by (rule fl_eqI_rhe[OF _ _ r]) (simp_all add: power_int_minus_divide)
  then show ?thesis by (simp add: power_int_minus_divide)
qed

lemma fl_13_minus_3: "fl (9007199254740991 / 4503599627370496) = 9007199254740991 / 4503599627370496"
proof -
  have "fl (9007199254740991 / 4503599627370496) = of_int 9007199254740991 * power_int 2 (0 - 52)"
    by (rule fl_eqI) (simp_all add: power_int_minus_divide)
  then show ?thesis by (simp add: power_int_minus_divide)
qed

text \<open>
  With 13 amplifier and 3 diminisher matches the expression is not 2 but the double just
  below 2, as in Python, where it prints as \<open>1.9999999999999998\<close>.
\<close>

lemma modifier_expr_13_3: "modifier_expr 13 3 = 9007199254740991 / 4503599627370496"
proof -
  have n13: "float_of_nat 13 = 13" and n3: "float_of_nat 3 = 3"
    using fl_of_nat[of 13] fl_of_nat[of 3] by (simp_all add: float_of_nat_def)
  have a: "fmul 13 (3602879701896397 / 36028797018963968) = 5854679515581645 / 4503599627370496" using fl_13_tenths by (simp add: fmul_def)
  have b: "fadd 1 (5854679515581645 / 4503599627370496) = 2589569785738035 / 1125899906842624" using fl_1_plus_13_tenths by (simp add: fadd_def)
  have c: "fmul 3 (3602879701896397 / 36028797018963968) = 1351079888211149 / 4503599627370496" using fl_3_tenths by (simp add: fmul_def)
  have d: "fsub (2589569785738035 / 1125899906842624) (1351079888211149 / 4503599627370496) = 9007199254740991 / 4503599627370496" using fl_13_minus_3 by (simp add: fsub_def)
  show ?thesis
    unfolding modifier_expr_def n13 n3 fl_tenth a b c d ..
qed





subsection \<open>The intensity modifier\<close>



lemma fl_third: "fl (1 / 3) = 6004799503160661 / 18014398509481984"
proof -
  have "fl (1 / 3) = of_int 6004799503160661 * power_int 2 (- 2 - 52)"
    by (rule fl_eqI) (simp_all add: power_int_minus_divide)
  then show ?thesis by (simp add: power_int_minus_divide)
qed

lemma fl_third_hundred: "fl (150119987579016525 / 4503599627370496) = 2345624805922133 / 70368744177664"
proof -
  have "fl (150119987579016525 / 4503599627370496) = of_int 4691249611844266 * power_int 2 (5 - 52)"
    by (rule fl_eqI) (simp_all add: power_int_minus_divide)
  then show ?thesis by (simp add: power_int_minus_divide)
qed

lemma fl_3333: "fl (3333 / 100) = 2345390243441541 / 70368744177664"
proof -
  have "fl (3333 / 100) = of_int 4690780486883082 * power_int 2 (5 - 52)"
    by (rule fl_eqI) (simp_all add: power_int_minus_divide)
  then show ?thesis by (simp add: power_int_minus_divide)
qed

lemma fl_3333_fixed: "fl (2345390243441541 / 70368744177664) = 2345390243441541 / 70368744177664"
proof -
  have "fl (2345390243441541 / 70368744177664) = of_int 4690780486883082 * power_int 2 (5 - 52)"
    by (rule fl_eqI) (simp_all add: power_int_minus_divide)
  then show ?thesis by (simp add: power_int_minus_divide)
qed

lemma rhe_third_hundred: "rhe (2345624805922133 / 70368744177664 * 10 ^ 2) = 3333"
  by (rule rhe_eqI) simp

lemma rhe_3333: "rhe (2345390243441541 / 70368744177664 * 10 ^ 2) = 3333"
  by (rule rhe_eqI) simp

lemma py_round_third_hundred: "py_round (2345624805922133 / 70368744177664) 2 = 2345390243441541 / 70368744177664"
  unfolding py_round_def rhe_third_hundred using fl_3333 by simp

lemma py_round_3333: "py_round (2345390243441541 / 70368744177664) 2 = 2345390243441541 / 70368744177664"
  unfolding py_round_def rhe_3333 using fl_3333 by simp

lemma fl_1: "fl 1 = 1"
  using fl_of_nat[of 1] by simp

lemma modifier_plain:
  assumes "count_matches INTENSITY_AMPLIFIERS s = 0" and "count_matches INTENSITY_DIMINISHERS s = 0"
  shows "calculate_intensity_modifier s = 1"
  unfolding calculate_intensity_modifier_def Let_def assms
  by (simp add: float_of_nat_def fl_zero fmul_def fadd_def fsub_def fl_1)

lemma score_one_of_three:
  assumes "length (matches_of (patterns cfg) s) = 1" and "length (py_split s) = 3"
    and "weight cfg = 1"
  shows "score_dimension s cfg = 2345390243441541 / 70368744177664"
proof -
  have n1: "float_of_nat 1 = 1" and n3: "float_of_nat 3 = 3" and n100: "float_of_nat 100 = 100"
    using fl_of_nat[of 1] fl_of_nat[of 3] fl_of_nat[of 100] by (simp_all add: float_of_nat_def)
  have raw: "fmul 1 1 = 1" by (simp add: fmul_def fl_1)
  have q: "fdiv 1 3 = 6004799503160661 / 18014398509481984" using fl_third by (simp add: fdiv_def)
  have h: "fmul (6004799503160661 / 18014398509481984) 100 = 2345624805922133 / 70368744177664" using fl_third_hundred by (simp add: fmul_def)
  show ?thesis
    unfolding score_dimension_def Let_def assms n1 n3 n100 raw
    by (simp add: q h py_round_third_hundred)
qed

lemma joy_entry:
  "map_of (adjusted_scores_of s) ''JOY'' =
     Some (py_round (fmul (score_dimension s \<lparr>patterns = JOY_patterns, weight = 1\<rparr>)
                          (calculate_intensity_modifier s)) 2)"
  by (simp add: adjusted_scores_of_def EMOTIONAL_DIMENSIONS_def)

lemma joy_score_one_of_three:
  assumes "length (matches_of JOY_patterns s) = 1" and "length (py_split s) = 3"
    and "count_matches INTENSITY_AMPLIFIERS s = 0" and "count_matches INTENSITY_DIMINISHERS s = 0"
  shows "map_of (adjusted_scores_of s) ''JOY'' = Some (2345390243441541 / 70368744177664)"
proof -
  have m: "calculate_intensity_modifier s = 1"
    using assms(3,4) by (rule modifier_plain)
  have sc: "score_dimension s \<lparr>patterns = JOY_patterns, weight = 1\<rparr> = 2345390243441541 / 70368744177664"
    using assms(1,2) by (intro score_one_of_three) simp_all
  have f: "fmul (2345390243441541 / 70368744177664) 1 = 2345390243441541 / 70368744177664" using fl_3333_fixed by (simp add: fmul_def)
  show ?thesis
    unfolding joy_entry m sc f py_round_3333 ..
qed


lemma joy_lower: "length (matches_of JOY_patterns ''i am happy'') = 1"
  by code_simp+

lemma joy_upper: "length (matches_of JOY_patterns ''I AM HAPPY'') = 1"
  by code_simp+

lemma joy_mixed: "length (matches_of JOY_patterns ''I aM HaPpY'') = 1"
  by code_simp+

lemma happy_modifiers:
  "count_matches INTENSITY_AMPLIFIERS ''i am happy'' = 0"
  "count_matches INTENSITY_DIMINISHERS ''i am happy'' = 0"
  "count_matches INTENSITY_AMPLIFIERS ''I AM HAPPY'' = 0"
  "count_matches INTENSITY_DIMINISHERS ''I AM HAPPY'' = 0"
  "count_matches INTENSITY_AMPLIFIERS ''I aM HaPpY'' = 0"
  "count_matches INTENSITY_DIMINISHERS ''I aM HaPpY'' = 0"
  by code_simp+

lemma happy_words:
  "length (py_split ''i am happy'') = 3"
  "length (py_split ''I AM HAPPY'') = 3"
  "length (py_split ''I aM HaPpY'') = 3"
  by code_simp+


lemma analyze_joy:
  assumes "s \<noteq> []"
    and "length (matches_of JOY_patterns s) = 1" and "length (py_split s) = 3"
    and "count_matches INTENSITY_AMPLIFIERS s = 0" and "count_matches INTENSITY_DIMINISHERS s = 0"
  shows "\<exists>a. analyze h now (PyStr s) ctx = Inr a
           \<and> map_of (dimension_scores a) ''JOY'' = Some (2345390243441541 / 70368744177664)"
  unfolding analyze_PyStr[OF assms(1)] analyze_str_Inr
  using joy_score_one_of_three[OF assms(2-5)] by simp

subsection \<open>Case-insensitive matching\<close>

text \<open>
  C8: \<open>analyze\<close> of \<open>i am happy\<close>, of \<open>I AM HAPPY\<close> and of \<open>I aM HaPpY\<close> give the same
  JOY score, and this score is greater than 0.
\<close>

theorem C8_case_insensitive_joy:
  "\<exists>a1 a2 a3 v. analyze h1 now1 (PyStr ''i am happy'') ctx1 = Inr a1
     \<and> analyze h2 now2 (PyStr ''I AM HAPPY'') ctx2 = Inr a2
     \<and> analyze h3 now3 (PyStr ''I aM HaPpY'') ctx3 = Inr a3
     \<and> map_of (dimension_scores a1) ''JOY'' = Some v
     \<and> map_of (dimension_scores a2) ''JOY'' = Some v
     \<and> map_of (dimension_scores a3) ''JOY'' = Some v
     \<and> 0 < v"
proof -
  have n1: "''i am happy'' \<noteq> []" and n2: "''I AM HAPPY'' \<noteq> []" and n3: "''I aM HaPpY'' \<noteq> []"
    by simp_all
  from analyze_joy[OF n1 joy_lower happy_words(1) happy_modifiers(1,2), of h1 now1 ctx1]
  obtain a1 where c1: "analyze h1 now1 (PyStr ''i am happy'') ctx1 = Inr a1
      \<and> map_of (dimension_scores a1) ''JOY'' = Some (2345390243441541 / 70368744177664)" ..
  note a1 = c1[THEN conjunct1] and j1 = c1[THEN conjunct2]
  from analyze_joy[OF n2 joy_upper happy_words(2) happy_modifiers(3,4), of h2 now2 ctx2]
  obtain a2 where c2: "analyze h2 now2 (PyStr ''I AM HAPPY'') ctx2 = Inr a2
      \<and> map_of (dimension_scores a2) ''JOY'' = Some (2345390243441541 / 70368744177664)" ..
  note a2 = c2[THEN conjunct1] and j2 = c2[THEN conjunct2]
  from analyze_joy[OF n3 joy_mixed happy_words(3) happy_modifiers(5,6), of h3 now3 ctx3]
  obtain a3 where c3: "analyze h3 now3 (PyStr ''I aM HaPpY'') ctx3 = Inr a3
      \<and> map_of (dimension_scores a3) ''JOY'' = Some (2345390243441541 / 70368744177664)" ..
  note a3 = c3[THEN conjunct1] and j3 = c3[THEN conjunct2]
  have pos: "(0::rat) < 2345390243441541 / 70368744177664" by simp
  show ?thesis
    by (rule exI[of _ a1], rule exI[of _ a2], rule exI[of _ a3], rule exI[of _ "2345390243441541 / 70368744177664"])
       (rule conjI[OF a1 conjI[OF a2 conjI[OF a3 conjI[OF j1 conjI[OF j2 conjI[OF j3 pos]]]]]])
qed

theorem C8_case_insensitive_joy_witness:
  "\<exists>a1 a2 a3 v. analyze remdups ''2026-01-30T10:00:00'' (PyStr ''i am happy'') None = Inr a1
     \<and> analyze remdups ''2026-01-30T10:00:01'' (PyStr ''I AM HAPPY'') None = Inr a2
     \<and> analyze remdups ''2026-01-30T10:00:02'' (PyStr ''I aM HaPpY'') None = Inr a3
     \<and> map_of (dimension_scores a1) ''JOY'' = Some v
     \<and> map_of (dimension_scores a2) ''JOY'' = Some v
     \<and> map_of (dimension_scores a3) ''JOY'' = Some v
     \<and> 0 < v"
  by (rule C8_case_insensitive_joy)

section \<open>Claims about the profile tracker\<close>

text \<open>
  C10: \<open>add_to_profile\<close> succeeds for every agent name and analysis. The profile it
  returns is the one stored under the name afterwards; its analyses are the former ones
  (none for an unknown agent, whose profile is created first) followed by the new
  analysis; its \<open>last_updated\<close> is the new reading of the clock; its \<open>agent_name\<close> and
  \<open>created_at\<close> are those of the former profile (for an unknown agent: the name, and the
  time of creation); and the profile of every other agent is unchanged.
\<close>

theorem C10_add_to_profile_frame:
  "\<exists>p ps. add_to_profile now_init now_add profiles name a = Inr (p, ps)
     \<and> ps name = Some p
     \<and> analyses p = (case profiles name of None \<Rightarrow> [] | Some p0 \<Rightarrow> analyses p0) @ [a]
     \<and> last_updated p = now_add
     \<and> agent_name p = (case profiles name of None \<Rightarrow> name | Some p0 \<Rightarrow> agent_name p0)
     \<and> created_at p = (case profiles name of None \<Rightarrow> now_init | Some p0 \<Rightarrow> created_at p0)
     \<and> (\<forall>other. other \<noteq> name \<longrightarrow> ps other = profiles other)"
proof (cases "profiles name")
  case None
  then have d: "name \<notin> dom profiles" by (simp add: domIff)
  show ?thesis
    unfolding add_to_profile_def Let_def
    using d None by (simp add: EmotionalProfile_def add_analysis_def)
next
  case (Some p0)
  then have d: "name \<in> dom profiles" by (simp add: domIff)
  show ?thesis
    unfolding add_to_profile_def Let_def
    using d Some by (simp add: add_analysis_def)
qed

theorem C10_add_to_profile_frame_witness:
  "\<exists>p ps. add_to_profile ''2026-01-30T10:00:00'' ''2026-01-30T10:00:01''
              [''FORGE'' \<mapsto> forge_profile] ''FORGE'' 3 = Inr (p, ps)
     \<and> ps ''FORGE'' = Some p
     \<and> analyses p = [1, 2, 3]
     \<and> last_updated p = ''2026-01-30T10:00:01''
     \<and> agent_name p = ''FORGE''
     \<and> created_at p = ''2026-01-30T09:00:00''
     \<and> ''CLIO'' \<noteq> ''FORGE''
     \<and> ps ''CLIO'' = [''FORGE'' \<mapsto> forge_profile] ''CLIO''"
proof -
  from C10_add_to_profile_frame[of "''2026-01-30T10:00:00''" "''2026-01-30T10:00:01''"
         "[''FORGE'' \<mapsto> forge_profile]" "''FORGE''" 3]
  obtain p ps where
    r: "add_to_profile ''2026-01-30T10:00:00'' ''2026-01-30T10:00:01''
              [''FORGE'' \<mapsto> forge_profile] ''FORGE'' 3 = Inr (p, ps)"
    and g: "ps ''FORGE'' = Some p"
    and an: "analyses p = (case [''FORGE'' \<mapsto> forge_profile] ''FORGE'' of None \<Rightarrow> []
                           | Some p0 \<Rightarrow> analyses p0) @ [3]"
    and lu: "last_updated p = ''2026-01-30T10:00:01''"
    and ag: "agent_name p = (case [''FORGE'' \<mapsto> forge_profile] ''FORGE'' of None \<Rightarrow> ''FORGE''
                           | Some p0 \<Rightarrow> agent_name p0)"
    and cr: "created_at p = (case [''FORGE'' \<mapsto> forge_profile] ''FORGE'' of
                           None \<Rightarrow> ''2026-01-30T10:00:00'' | Some p0 \<Rightarrow> created_at p0)"
    and fr: "\<forall>other. other \<noteq> ''FORGE'' \<longrightarrow> ps other = [''FORGE'' \<mapsto> forge_profile] other"
    by (elim exE conjE)
  have ne: "''CLIO'' \<noteq> ''FORGE''" by simp
  have an': "analyses p = [1, 2, 3]" using an by (simp add: forge_profile_def)
  have ag': "agent_name p = ''FORGE''" using ag by (simp add: forge_profile_def)
  have cr': "created_at p = ''2026-01-30T09:00:00''" using cr by (simp add: forge_profile_def)
  have fr': "ps ''CLIO'' = [''FORGE'' \<mapsto> forge_profile] ''CLIO''"
    by (rule fr[THEN spec, THEN mp, OF ne])
  show ?thesis
    by (rule exI[of _ p], rule exI[of _ ps])
       (rule conjI[OF r conjI[OF g conjI[OF an' conjI[OF lu conjI[OF ag' conjI[OF cr' conjI[OF ne fr']]]]]]])
qed

section \<open>Claims about the aggregator\<close>

lemma map_of_dd_append:
  "map_of (dd_append g k v) k' =
     (if k' = k then Some ((case map_of g k of None \<Rightarrow> [] | Some vs \<Rightarrow> vs) @ [v])
      else map_of g k')"
  by (induction g k v rule: dd_append.induct) auto

lemma map_of_group_all:
  "map_of (group_all new g) k =
     (if filter (\<lambda>a. sender a = k) new = [] then map_of g k
      else Some ((case map_of g k of None \<Rightarrow> [] | Some vs \<Rightarrow> vs) @ filter (\<lambda>a. sender a = k) new))"
  unfolding group_all_def
proof (induction new arbitrary: g)
  case Nil
  show ?case by simp
next
  case (Cons a new)
  show ?case
    by (simp add: Cons.IH map_of_dd_append split: option.splits)
qed

lemma truncate_extend: "analysis.truncate (analysis.extend a ext) = a"
  by (cases a) (simp add: analysis.truncate_def analysis.extend_def)

lemma analyze_each_ok:
  assumes "\<forall>m \<in> set msgs. truthy (content_of m) \<longrightarrow> isinstance_str (content_of m)"
  shows "\<exists>new. analyze_each h clock msgs acc grouped = Inr (acc @ new, group_all new grouped)
           \<and> length new = length (with_content msgs)
           \<and> (\<forall>i < length new.
                 analyze h (clock (length acc + i)) (content_of (with_content msgs ! i))
                         (sender_of (with_content msgs ! i)) = Inr (analysis.truncate (new ! i))
                 \<and> sender (new ! i) = sender_of (with_content msgs ! i)
                 \<and> message_timestamp (new ! i) = timestamp_of (with_content msgs ! i))"
  using assms
proof (induction msgs arbitrary: acc grouped)
  case Nil
  show ?case by (simp add: group_all_def with_content_def)
next
  case (Cons msg msgs)
  have rest: "\<forall>m \<in> set msgs. truthy (content_of m) \<longrightarrow> isinstance_str (content_of m)"
    using Cons.prems by simp
  show ?case
  proof (cases "truthy (content_of msg)")
    case False
    from Cons.IH[OF rest, of acc grouped] obtain new where
      n: "analyze_each h clock msgs acc grouped = Inr (acc @ new, group_all new grouped)
           \<and> length new = length (with_content msgs)
           \<and> (\<forall>i < length new.
                 analyze h (clock (length acc + i)) (content_of (with_content msgs ! i))
                         (sender_of (with_content msgs ! i)) = Inr (analysis.truncate (new ! i))
                 \<and> sender (new ! i) = sender_of (with_content msgs ! i)
                 \<and> message_timestamp (new ! i) = timestamp_of (with_content msgs ! i))" ..
    have w: "with_content (msg # msgs) = with_content msgs"
      using False by (simp add: with_content_def)
    have step: "analyze_each h clock (msg # msgs) acc grouped = analyze_each h clock msgs acc grouped"
      using False by (simp add: content_of_def)
    show ?thesis unfolding w step using n by (rule exI)
  next
    case True
    then have "isinstance_str (content_of msg)" using Cons.prems by simp
    then obtain s where s: "content_of msg = PyStr s" by (cases "content_of msg") auto
    then have ne: "s \<noteq> []" using True by simp
    obtain a where a: "analyze h (clock (length acc)) (PyStr s) (sender_of msg) = Inr a"
      unfolding analyze_PyStr[OF ne] analyze_str_Inr by blast
    define a' where "a' = analysis.extend a
                               (msg_analysis.fields (sender_of msg) (timestamp_of msg))"
    have sa: "sender a' = sender_of msg" and ta: "message_timestamp a' = timestamp_of msg"
      by (simp_all add: a'_def analysis.extend_def msg_analysis.fields_def)
    have tr: "analysis.truncate a' = a" unfolding a'_def by (rule truncate_extend)
    from Cons.IH[OF rest, of "acc @ [a']" "dd_append grouped (sender_of msg) a'"] obtain new where
      n: "analyze_each h clock msgs (acc @ [a']) (dd_append grouped (sender_of msg) a')
            = Inr ((acc @ [a']) @ new, group_all new (dd_append grouped (sender_of msg) a'))
           \<and> length new = length (with_content msgs)
           \<and> (\<forall>i < length new.
                 analyze h (clock (length (acc @ [a']) + i)) (content_of (with_content msgs ! i))
                         (sender_of (with_content msgs ! i)) = Inr (analysis.truncate (new ! i))
                 \<and> sender (new ! i) = sender_of (with_content msgs ! i)
                 \<and> message_timestamp (new ! i) = timestamp_of (with_content msgs ! i))" ..
    have w: "with_content (msg # msgs) = msg # with_content msgs"
      using True by (simp add: with_content_def)
    have step: "analyze_each h clock (msg # msgs) acc grouped
            = analyze_each h clock msgs (acc @ [a']) (dd_append grouped (sender_of msg) a')"
      using True s a by (simp add: content_of_def sender_of_def timestamp_of_def a'_def Let_def)
    have g: "group_all new (dd_append grouped (sender_of msg) a') = group_all (a' # new) grouped"
      by (simp add: group_all_def sa)
    have r1: "analyze_each h clock (msg # msgs) acc grouped
                = Inr (acc @ (a' # new), group_all (a' # new) grouped)"
      unfolding step using n g by simp
    have r2: "length (a' # new) = length (with_content (msg # msgs))"
      unfolding w using n by simp
    have r3: "analyze h (clock (length acc + i)) (content_of (with_content (msg # msgs) ! i))
                         (sender_of (with_content (msg # msgs) ! i))
                = Inr (analysis.truncate ((a' # new) ! i))
              \<and> sender ((a' # new) ! i) = sender_of (with_content (msg # msgs) ! i)
              \<and> message_timestamp ((a' # new) ! i) = timestamp_of (with_content (msg # msgs) ! i)"
      if "i < length (a' # new)" for i
    proof (cases i)
      case 0
      show ?thesis unfolding w 0 using a s sa ta tr by simp
    next
      case (Suc j)
      then have j: "j < length new" using that by simp
      from n j have "analyze h (clock (length (acc @ [a']) + j)) (content_of (with_content msgs ! j))
                         (sender_of (with_content msgs ! j)) = Inr (analysis.truncate (new ! j))
                 \<and> sender (new ! j) = sender_of (with_content msgs ! j)
                 \<and> message_timestamp (new ! j) = timestamp_of (with_content msgs ! j)" by blast
      then show ?thesis unfolding w Suc by simp
    qed
    have "analyze_each h clock (msg # msgs) acc grouped
                = Inr (acc @ (a' # new), group_all (a' # new) grouped)
          \<and> length (a' # new) = length (with_content (msg # msgs))
          \<and> (\<forall>i < length (a' # new).
                analyze h (clock (length acc + i)) (content_of (with_content (msg # msgs) ! i))
                         (sender_of (with_content (msg # msgs) ! i))
                = Inr (analysis.truncate ((a' # new) ! i))
              \<and> sender ((a' # new) ! i) = sender_of (with_content (msg # msgs) ! i)
              \<and> message_timestamp ((a' # new) ! i) = timestamp_of (with_content (msg # msgs) ! i))"
      using r1 r2 r3 by blast
    then show ?thesis by (rule exI)
  qed
qed

lemma py_max_key_nonempty: "xs \<noteq> [] \<Longrightarrow> \<exists>k. py_max_key xs = Inr k"
  by (cases xs) simp_all

lemma map_of_by_sender_of:
  "map_option count (map_of (by_sender_of grouped) who) = map_option length (map_of grouped who)"
  unfolding by_sender_of_def
  by (induction grouped) auto

lemma analyze_messages_ok:
  assumes "msgs \<noteq> []"
    and "\<forall>m \<in> set msgs. truthy (content_of m) \<longrightarrow> isinstance_str (content_of m)"
  shows "\<exists>r new. analyze_messages h clock msgs = Inr r
           \<and> length new = length (with_content msgs)
           \<and> (\<forall>i < length new.
                 analyze h (clock i) (content_of (with_content msgs ! i))
                         (sender_of (with_content msgs ! i)) = Inr (analysis.truncate (new ! i))
                 \<and> sender (new ! i) = sender_of (with_content msgs ! i)
                 \<and> message_timestamp (new ! i) = timestamp_of (with_content msgs ! i))
           \<and> total_messages r = length msgs
           \<and> analyzed_messages r = length new
           \<and> individual_analyses r = new
           \<and> emotional_arc r = map (\<lambda>a. (sender a, dominant_emotion a, overall_intensity a)) new
           \<and> by_sender r = by_sender_of (group_all new [])"
proof -
  from analyze_each_ok[OF assms(2), of h clock "[]" "[]"] obtain new where
    n: "analyze_each h clock msgs [] [] = Inr ([] @ new, group_all new [])
        \<and> length new = length (with_content msgs)
        \<and> (\<forall>i < length new.
                 analyze h (clock (length ([] :: msg_analysis list) + i)) (content_of (with_content msgs ! i))
                         (sender_of (with_content msgs ! i)) = Inr (analysis.truncate (new ! i))
                 \<and> sender (new ! i) = sender_of (with_content msgs ! i)
                 \<and> message_timestamp (new ! i) = timestamp_of (with_content msgs ! i))" ..
  define avg where "avg = map (\<lambda>(dim, scores).
                                   (dim, py_round (fdiv (py_sum scores)
                                                        (float_of_nat (length scores))) 2))
                                (collect_scores new)"
  have "\<exists>best. (if avg \<noteq> [] then py_max_key avg else Inr ''UNKNOWN'') = Inr best"
    using py_max_key_nonempty[of avg] by (cases "avg = []") auto
  then obtain best where b: "(if avg \<noteq> [] then py_max_key avg else Inr ''UNKNOWN'') = Inr best" ..
  have e1: "analyze_messages h clock msgs =
          (case (if avg \<noteq> [] then py_max_key avg else Inr ''UNKNOWN'') of
             Inl e \<Rightarrow> Inl e
           | Inr k \<Rightarrow>
              Inr \<lparr>total_messages = length msgs,
               analyzed_messages = length new,
               average_scores = avg,
               dominant_overall = k,
               emotional_arc = map (\<lambda>a. (sender a, dominant_emotion a, overall_intensity a)) new,
               by_sender = by_sender_of (group_all new []),
               individual_analyses = new\<rparr>)"
    unfolding analyze_messages_def Let_def avg_def by_sender_of_def
    using assms(1) n by simp
  have "analyze_messages h clock msgs =
          Inr \<lparr>total_messages = length msgs,
               analyzed_messages = length new,
               average_scores = avg,
               dominant_overall = best,
               emotional_arc = map (\<lambda>a. (sender a, dominant_emotion a, overall_intensity a)) new,
               by_sender = by_sender_of (group_all new []),
               individual_analyses = new\<rparr>"
    unfolding e1 b by simp
  then show ?thesis using n by simp
qed

lemma length_filter_sender:
  "map sender new = map sender_of ms \<Longrightarrow>
   length (filter (\<lambda>a. sender a = who) new) = length (filter (\<lambda>m. sender_of m = who) ms)"
proof (induction new arbitrary: ms)
  case Nil
  then show ?case by simp
next
  case (Cons a new)
  then obtain m ms' where ms: "ms = m # ms'" by (cases ms) auto
  with Cons.prems have "sender a = sender_of m" "map sender new = map sender_of ms'" by simp_all
  with Cons.IH[of ms'] show ?case by (simp add: ms)
qed

subsection \<open>Messages without content\<close>

text \<open>
  C7: for every non-empty batch whose contents are strings where they are not empty or
  absent, \<open>analyze_messages\<close> succeeds; \<open>total_messages\<close> counts all messages,
  \<open>analyzed_messages\<close> counts the messages with content, and there is one individual
  analysis for each of them, in order: the \<open>i\<close>-th individual analysis is the result of
  \<open>analyze\<close> on the content and the sender of the \<open>i\<close>-th message with content (read at
  the \<open>i\<close>-th clock reading), extended with that message's sender and timestamp. The
  emotional arc lists sender, dominant emotion and overall intensity of these analyses,
  and the count reported for a sender is the number of messages with content of that
  sender (no entry when there is none). A message whose \<open>content\<close> is absent, \<open>None\<close> or
  the empty string is counted in \<open>total_messages\<close> only. For the sample batch of three
  messages from FORGE, CLIO and FORGE the counts are 2 and 1, and both totals are 3.
\<close>

theorem C7_batch_skips_empty_content:
  assumes "msgs \<noteq> []"
    and "\<forall>m \<in> set msgs. truthy (content_of m) \<longrightarrow> isinstance_str (content_of m)"
  shows "\<exists>r. analyze_messages h clock msgs = Inr r
      \<and> total_messages r = length msgs
      \<and> analyzed_messages r = length (with_content msgs)
      \<and> length (individual_analyses r) = analyzed_messages r
      \<and> (\<forall>i < length (with_content msgs).
            analyze h (clock i) (content_of (with_content msgs ! i))
                    (sender_of (with_content msgs ! i))
              = Inr (analysis.truncate (individual_analyses r ! i))
            \<and> sender (individual_analyses r ! i) = sender_of (with_content msgs ! i)
            \<and> message_timestamp (individual_analyses r ! i) = timestamp_of (with_content msgs ! i))
      \<and> emotional_arc r
          = map (\<lambda>a. (sender a, dominant_emotion a, overall_intensity a)) (individual_analyses r)
      \<and> (\<forall>who. map_option count (map_of (by_sender r) who) =
            (let n = length (filter (\<lambda>m. sender_of m = who) (with_content msgs))
             in if n = 0 then None else Some n))"
proof -
  from analyze_messages_ok[OF assms, of h clock] obtain r new where
    r: "analyze_messages h clock msgs = Inr r"
    and l: "length new = length (with_content msgs)"
    and s: "\<forall>i < length new.
                 analyze h (clock i) (content_of (with_content msgs ! i))
                         (sender_of (with_content msgs ! i)) = Inr (analysis.truncate (new ! i))
                 \<and> sender (new ! i) = sender_of (with_content msgs ! i)
                 \<and> message_timestamp (new ! i) = timestamp_of (with_content msgs ! i)"
    and t: "total_messages r = length msgs"
    and a: "analyzed_messages r = length new"
    and i: "individual_analyses r = new"
    and arc: "emotional_arc r = map (\<lambda>a. (sender a, dominant_emotion a, overall_intensity a)) new"
    and b: "by_sender r = by_sender_of (group_all new [])"
    by (elim exE conjE)
  have senders: "map sender new = map sender_of (with_content msgs)"
    using l s by (intro nth_equalityI) simp_all
  have cnt: "map_option count (map_of (by_sender r) who) =
            (let n = length (filter (\<lambda>m. sender_of m = who) (with_content msgs))
             in if n = 0 then None else Some n)" for who
  proof -
    have f: "length (filter (\<lambda>a. sender a = who) new)
             = length (filter (\<lambda>m. sender_of m = who) (with_content msgs))"
      by (rule length_filter_sender[OF senders])
    show ?thesis
      unfolding b map_of_by_sender_of map_of_group_all Let_def
      using f by (auto simp: f[symmetric])
  qed
  show ?thesis
    using r t a i l s arc cnt by simp
qed


lemma batch3_facts:
  "batch3 \<noteq> []"
  "\<forall>m \<in> set batch3. truthy (content_of m) \<longrightarrow> isinstance_str (content_of m)"
  "length batch3 = 3"
  "with_content batch3 = batch3"
  "length (filter (\<lambda>m. sender_of m = Some ''FORGE'') batch3) = 2"
  "length (filter (\<lambda>m. sender_of m = Some ''CLIO'') batch3) = 1"
  by (simp_all add: batch3_def with_content_def content_of_def sender_of_def)

lemma batch5_facts:
  "batch5 \<noteq> []"
  "\<forall>m \<in> set batch5. truthy (content_of m) \<longrightarrow> isinstance_str (content_of m)"
  "length batch5 = 5"
  "with_content batch5 = batch3"
  by (simp_all add: batch5_def batch3_def with_content_def content_of_def sender_of_def)

lemma batch3_last:
  "2 < length batch3"
  "content_of (batch3 ! 2) = PyStr ''I feel grateful.''"
  "sender_of (batch3 ! 2) = Some ''FORGE''"
  by (simp_all add: batch3_def content_of_def sender_of_def)

theorem C7_batch_skips_empty_content_witness:
  "batch3 \<noteq> []
   \<and> (\<exists>r. analyze_messages remdups (\<lambda>i. ''2026-01-30T10:00:00'') batch3 = Inr r
        \<and> total_messages r = 3 \<and> analyzed_messages r = 3
        \<and> map_option count (map_of (by_sender r) (Some ''FORGE'')) = Some 2
        \<and> map_option count (map_of (by_sender r) (Some ''CLIO'')) = Some 1)
   \<and> (\<exists>r. analyze_messages remdups (\<lambda>i. ''2026-01-30T10:00:00'') batch5 = Inr r
        \<and> total_messages r = 5 \<and> analyzed_messages r = 3
        \<and> analyze remdups ''2026-01-30T10:00:00'' (PyStr ''I feel grateful.'') (Some ''FORGE'')
            = Inr (analysis.truncate (individual_analyses r ! 2))
        \<and> map_option count (map_of (by_sender r) (Some ''FORGE'')) = Some 2
        \<and> map_option count (map_of (by_sender r) (Some ''CLIO'')) = Some 1)"
proof -
  let ?clk = "\<lambda>i::nat. ''2026-01-30T10:00:00''"
  from C7_batch_skips_empty_content[OF batch3_facts(1,2), of remdups ?clk] obtain r where
    r: "analyze_messages remdups ?clk batch3 = Inr r"
    and t: "total_messages r = length batch3"
    and a: "analyzed_messages r = length (with_content batch3)"
    and c: "\<forall>who. map_option count (map_of (by_sender r) who) =
            (let n = length (filter (\<lambda>m. sender_of m = who) (with_content batch3))
             in if n = 0 then None else Some n)"
    by (elim exE conjE)
  have f: "map_option count (map_of (by_sender r) (Some ''FORGE'')) = Some 2"
    unfolding c[THEN spec, of "Some ''FORGE''"] batch3_facts(4) batch3_facts(5) by simp
  have g: "map_option count (map_of (by_sender r) (Some ''CLIO'')) = Some 1"
    unfolding c[THEN spec, of "Some ''CLIO''"] batch3_facts(4) batch3_facts(6) by simp
  have t': "total_messages r = 3" unfolding t batch3_facts(3) ..
  have a': "analyzed_messages r = 3" unfolding a batch3_facts(4) batch3_facts(3) ..
  have first: "\<exists>r. analyze_messages remdups ?clk batch3 = Inr r
        \<and> total_messages r = 3 \<and> analyzed_messages r = 3
        \<and> map_option count (map_of (by_sender r) (Some ''FORGE'')) = Some 2
        \<and> map_option count (map_of (by_sender r) (Some ''CLIO'')) = Some 1"
    by (rule exI[of _ r]) (rule conjI[OF r conjI[OF t' conjI[OF a' conjI[OF f g]]]])
  from C7_batch_skips_empty_content[OF batch5_facts(1,2), of remdups ?clk] obtain q where
    r5: "analyze_messages remdups ?clk batch5 = Inr q"
    and t5: "total_messages q = length batch5"
    and a5: "analyzed_messages q = length (with_content batch5)"
    and s5: "\<forall>i < length (with_content batch5).
            analyze remdups (?clk i) (content_of (with_content batch5 ! i))
                    (sender_of (with_content batch5 ! i))
              = Inr (analysis.truncate (individual_analyses q ! i))
            \<and> sender (individual_analyses q ! i) = sender_of (with_content batch5 ! i)
            \<and> message_timestamp (individual_analyses q ! i) = timestamp_of (with_content batch5 ! i)"
    and c5: "\<forall>who. map_option count (map_of (by_sender q) who) =
            (let n = length (filter (\<lambda>m. sender_of m = who) (with_content batch5))
             in if n = 0 then None else Some n)"
    by (elim exE conjE)
  have f5: "map_option count (map_of (by_sender q) (Some ''FORGE'')) = Some 2"
    unfolding c5[THEN spec, of "Some ''FORGE''"] batch5_facts(4) batch3_facts(5) by simp
  have g5: "map_option count (map_of (by_sender q) (Some ''CLIO'')) = Some 1"
    unfolding c5[THEN spec, of "Some ''CLIO''"] batch5_facts(4) batch3_facts(6) by simp
  have t5': "total_messages q = 5" unfolding t5 batch5_facts(3) ..
  have a5': "analyzed_messages q = 3" unfolding a5 batch5_facts(4) batch3_facts(3) ..
  have "analyze remdups (?clk 2) (content_of (batch3 ! 2)) (sender_of (batch3 ! 2))
          = Inr (analysis.truncate (individual_analyses q ! 2))"
    using s5[unfolded batch5_facts(4), THEN spec, of 2, THEN mp, OF batch3_last(1)]
    by (rule conjunct1)
  then have s5': "analyze remdups ''2026-01-30T10:00:00'' (PyStr ''I feel grateful.'') (Some ''FORGE'')
          = Inr (analysis.truncate (individual_analyses q ! 2))"
    unfolding batch3_last(2) batch3_last(3) .
  have second: "\<exists>r. analyze_messages remdups ?clk batch5 = Inr r
        \<and> total_messages r = 5 \<and> analyzed_messages r = 3
        \<and> analyze remdups ''2026-01-30T10:00:00'' (PyStr ''I feel grateful.'') (Some ''FORGE'')
            = Inr (analysis.truncate (individual_analyses r ! 2))
        \<and> map_option count (map_of (by_sender r) (Some ''FORGE'')) = Some 2
        \<and> map_option count (map_of (by_sender r) (Some ''CLIO'')) = Some 1"
    by (rule exI[of _ q]) (rule conjI[OF r5 conjI[OF t5' conjI[OF a5' conjI[OF s5' conjI[OF f5 g5]]]]])
  show ?thesis
    by (rule conjI[OF batch3_facts(1) conjI[OF first second]])
qed
end
